theory Spec2Isabelle
  imports Complex_Main "HOL-Library.Sublist" "HOL-Library.Multiset"
begin

section \<open>JavaScript values and the conversions the handlers rely on\<close>

text \<open>
  The server (\<^verbatim>\<open>server/index.js\<close>) is an Express application over two JSON files.
  Request bodies are parsed JSON, so a body field is any JSON value, or absent
  (\<^verbatim>\<open>undefined\<close>, modelled as \<open>None\<close>).  Strings are sequences of code units, written
  as \<open>string\<close>; the text is taken to be ASCII.  Numbers are exact rationals: the
  rounding of IEEE doubles is not modelled.  A JSON object is the list of its
  own properties (keys distinct), without a user-defined \<^verbatim>\<open>toString\<close> or
  \<^verbatim>\<open>valueOf\<close>.
\<close>

datatype json =
    JNull
  | JBool bool
  | JNum rat
  | JStr string
  | JArr "json list"
  | JObj "(string \<times> json) list"

text \<open>The value of a numeric expression: a number, \<^verbatim>\<open>NaN\<close> or an infinity.\<close>

datatype jsnumber = NaN | Num rat | PosInfinity | NegInfinity

text \<open>
  Library functions that the program calls and that are not modelled here are
  parameters: the SHA-256 hex digest, the rendering of a number that is not an
  integer of magnitude below \<open>10\<^sup>2\<^sup>1\<close>, \<^verbatim>\<open>Date\<close> parsing (milliseconds since the
  epoch, \<open>None\<close> for an invalid date) and \<^verbatim>\<open>Date.prototype.toISOString\<close>.
\<close>

record runtime =
  sha256 :: "string \<Rightarrow> string"
  fractionToString :: "rat \<Rightarrow> string"
  dateParse :: "string \<Rightarrow> int option"
  toISOString :: "nat \<Rightarrow> string"

subsection \<open>Truthiness and strict equality\<close>

fun truthy :: "json option \<Rightarrow> bool" where
  "truthy None = False"
| "truthy (Some JNull) = False"
| "truthy (Some (JBool b)) = b"
| "truthy (Some (JNum r)) = (r \<noteq> 0)"
| "truthy (Some (JStr s)) = (s \<noteq> [])"
| "truthy (Some (JArr xs)) = True"
| "truthy (Some (JObj kvs)) = True"

text \<open>
  \<^verbatim>\<open>a === b\<close> on parsed JSON: primitives compare by value; two arrays or objects
  parsed from different texts are never the same object.
\<close>

fun strict_eq :: "json \<Rightarrow> json \<Rightarrow> bool" where
  "strict_eq JNull JNull = True"
| "strict_eq (JBool a) (JBool b) = (a = b)"
| "strict_eq (JNum a) (JNum b) = (a = b)"
| "strict_eq (JStr a) (JStr b) = (a = b)"
| "strict_eq _ _ = False"

subsection \<open>Strings\<close>

text \<open>
  \<^verbatim>\<open>toLowerCase\<close> on ASCII text: the letters A to Z are replaced, nothing else.
  \<^verbatim>\<open>String.prototype.toLowerCase\<close> also maps letters outside ASCII; text with such
  letters is outside the model.
\<close>

definition lowerChar :: "char \<Rightarrow> char" where
  "lowerChar c =
     (case map_of (zip ''ABCDEFGHIJKLMNOPQRSTUVWXYZ'' ''abcdefghijklmnopqrstuvwxyz'') c of
        None \<Rightarrow> c
      | Some d \<Rightarrow> d)"

definition toLowerCase :: "string \<Rightarrow> string" where
  "toLowerCase s = map lowerChar s"

text \<open>\<^verbatim>\<open>s.includes(q)\<close>: \<open>q\<close> occurs in \<open>s\<close> as a contiguous substring.\<close>

fun includes_str :: "string \<Rightarrow> string \<Rightarrow> bool" where
  "includes_str [] q = (q = [])"
| "includes_str (c # cs) q = (prefix q (c # cs) \<or> includes_str cs q)"

fun join :: "string \<Rightarrow> string list \<Rightarrow> string" where
  "join sep [] = []"
| "join sep [x] = x"
| "join sep (x # y # ys) = x @ sep @ join sep (y # ys)"

text \<open>
  White space within ASCII.  JavaScript also skips the no-break space and the other
  Unicode spaces, which do not occur in ASCII text.
\<close>

definition isWhiteSpace :: "char \<Rightarrow> bool" where
  "isWhiteSpace c = ((of_char c :: nat) \<in> {9, 10, 11, 12, 13, 32})"

definition trimStart :: "string \<Rightarrow> string" where
  "trimStart s = dropWhile isWhiteSpace s"

definition trim :: "string \<Rightarrow> string" where
  "trim s = rev (trimStart (rev (trimStart s)))"

subsection \<open>Digits\<close>

definition digitValue :: "char \<Rightarrow> nat option" where
  "digitValue c =
     (let n = (of_char c :: nat) in
      if 48 \<le> n \<and> n \<le> 57 then Some (n - 48)
      else if 97 \<le> n \<and> n \<le> 122 then Some (n - 87)
      else if 65 \<le> n \<and> n \<le> 90 then Some (n - 55)
      else None)"

definition isDigitIn :: "nat \<Rightarrow> char \<Rightarrow> bool" where
  "isDigitIn radix c = (case digitValue c of None \<Rightarrow> False | Some d \<Rightarrow> d < radix)"

definition digitsValue :: "nat \<Rightarrow> string \<Rightarrow> nat" where
  "digitsValue radix ds =
     foldl (\<lambda>acc c. acc * radix + (case digitValue c of None \<Rightarrow> 0 | Some d \<Rightarrow> d)) 0 ds"

text \<open>\<^verbatim>\<open>n.toString()\<close> for a non-negative integer: its decimal digits.\<close>

definition digitChar :: "nat \<Rightarrow> char" where
  "digitChar d = ''0123456789'' ! d"

fun natToString :: "nat \<Rightarrow> string" where
  "natToString n =
     (if n < 10 then [digitChar n]
      else natToString (n div 10) @ [digitChar (n mod 10)])"

declare natToString.simps [simp del]

definition stripSign :: "string \<Rightarrow> bool \<times> string" where
  "stripSign s =
     (case s of
        [] \<Rightarrow> (False, [])
      | c # cs \<Rightarrow> if c = CHR ''-'' then (True, cs)
                 else if c = CHR ''+'' then (False, cs)
                 else (False, s))"

subsection \<open>\<^verbatim>\<open>parseInt\<close>, \<^verbatim>\<open>String\<close> and \<^verbatim>\<open>Number\<close>\<close>

text \<open>
  \<^verbatim>\<open>parseInt(s)\<close> with no radix: leading white space and a sign are skipped, a
  \<^verbatim>\<open>0x\<close> prefix selects base 16, and the longest prefix of digits is read; with no
  digit the result is \<^verbatim>\<open>NaN\<close> (\<open>None\<close>).  The integer is kept exact, where
  \<^verbatim>\<open>parseInt\<close> rounds it to a double: the two differ from \<open>2\<^sup>5\<^sup>3\<close> on.
\<close>

definition parseInt_string :: "string \<Rightarrow> int option" where
  "parseInt_string s =
     (let (neg, s1) = stripSign (trimStart s);
          hex = (take 2 s1 = ''0x'' \<or> take 2 s1 = ''0X'');
          radix = (if hex then 16 else 10);
          s2 = (if hex then drop 2 s1 else s1);
          ds = takeWhile (isDigitIn radix) s2
      in if ds = [] then None
         else Some ((if neg then - 1 else 1) * int (digitsValue radix ds)))"

text \<open>
  \<^verbatim>\<open>String(v)\<close>.  An integer below \<open>10\<^sup>2\<^sup>1\<close> in magnitude prints in decimal; an array
  prints its elements joined by commas, \<^verbatim>\<open>null\<close> elements as the empty string.
\<close>

definition numberToString :: "runtime \<Rightarrow> rat \<Rightarrow> string" where
  "numberToString rt r =
     (if r = of_int \<lfloor>r\<rfloor> \<and> \<bar>r\<bar> < 10 ^ 21
      then (if r < 0 then ''-'' else '''') @ natToString (nat \<bar>\<lfloor>r\<rfloor>\<bar>)
      else fractionToString rt r)"

fun toString_json :: "runtime \<Rightarrow> json \<Rightarrow> string" where
  "toString_json rt JNull = ''null''"
| "toString_json rt (JBool b) = (if b then ''true'' else ''false'')"
| "toString_json rt (JNum r) = numberToString rt r"
| "toString_json rt (JStr s) = s"
| "toString_json rt (JArr xs) =
     join '','' (map (\<lambda>x. if x = JNull then [] else toString_json rt x) xs)"
| "toString_json rt (JObj kvs) = ''[object Object]''"

definition parseInt :: "runtime \<Rightarrow> json \<Rightarrow> int option" where
  "parseInt rt v = parseInt_string (toString_json rt v)"

text \<open>
  \<^verbatim>\<open>Number(s)\<close> on a string (StringToNumber): the trimmed text is empty (zero), a
  binary, octal or hexadecimal integer literal, or a signed decimal literal with
  optional fraction and exponent, or \<^verbatim>\<open>Infinity\<close>; anything else is \<^verbatim>\<open>NaN\<close>.
  The value is kept exact, where \<^verbatim>\<open>Number\<close> rounds it to a double: a literal with
  more digits than a double holds can compare differently with 1 and 5.
\<close>

definition radixLiteral :: "nat \<Rightarrow> string \<Rightarrow> jsnumber" where
  "radixLiteral radix ds =
     (if ds \<noteq> [] \<and> list_all (isDigitIn radix) ds then Num (of_nat (digitsValue radix ds))
      else NaN)"

definition scale10 :: "rat \<Rightarrow> int \<Rightarrow> rat" where
  "scale10 x e = (if 0 \<le> e then x * 10 ^ nat e else x / 10 ^ nat (- e))"

definition decimalLiteral :: "string \<Rightarrow> jsnumber" where
  "decimalLiteral s =
     (let (neg, s1) = stripSign s;
          sg = (if neg then - 1 else 1 :: rat)
      in if s1 = ''Infinity'' then (if neg then NegInfinity else PosInfinity)
         else
           let ip = takeWhile (isDigitIn 10) s1;
               s2 = dropWhile (isDigitIn 10) s1;
               dot = (s2 \<noteq> [] \<and> hd s2 = CHR ''.'');
               fp = (if dot then takeWhile (isDigitIn 10) (tl s2) else []);
               s3 = (if dot then dropWhile (isDigitIn 10) (tl s2) else s2);
               mant = of_nat (digitsValue 10 (ip @ fp)) / 10 ^ length fp
           in if ip = [] \<and> fp = [] then NaN
              else if s3 = [] then Num (sg * mant)
              else if hd s3 = CHR ''e'' \<or> hd s3 = CHR ''E'' then
                (let (eneg, s4) = stripSign (tl s3)
                 in if s4 \<noteq> [] \<and> list_all (isDigitIn 10) s4
                    then Num (sg * scale10 mant
                           ((if eneg then - 1 else 1) * int (digitsValue 10 s4)))
                    else NaN)
              else NaN)"

definition StringToNumber :: "string \<Rightarrow> jsnumber" where
  "StringToNumber str =
     (let s = trim str; p = take 2 s in
      if s = [] then Num 0
      else if p = ''0x'' \<or> p = ''0X'' then radixLiteral 16 (drop 2 s)
      else if p = ''0o'' \<or> p = ''0O'' then radixLiteral 8 (drop 2 s)
      else if p = ''0b'' \<or> p = ''0B'' then radixLiteral 2 (drop 2 s)
      else decimalLiteral s)"

text \<open>\<^verbatim>\<open>Number(v)\<close>, as the relational operators apply it to an operand.\<close>

fun toNumber :: "runtime \<Rightarrow> json option \<Rightarrow> jsnumber" where
  "toNumber rt None = NaN"
| "toNumber rt (Some JNull) = Num 0"
| "toNumber rt (Some (JBool b)) = Num (if b then 1 else 0)"
| "toNumber rt (Some (JNum r)) = Num r"
| "toNumber rt (Some v) = StringToNumber (toString_json rt v)"

text \<open>\<^verbatim>\<open>a < b\<close> on numbers: false as soon as one side is \<^verbatim>\<open>NaN\<close>.\<close>

fun lessThan_js :: "jsnumber \<Rightarrow> jsnumber \<Rightarrow> bool" where
  "lessThan_js NaN _ = False"
| "lessThan_js _ NaN = False"
| "lessThan_js (Num a) (Num b) = (a < b)"
| "lessThan_js PosInfinity _ = False"
| "lessThan_js _ PosInfinity = True"
| "lessThan_js _ NegInfinity = False"
| "lessThan_js NegInfinity _ = True"

text \<open>\<^verbatim>\<open>v.length\<close> of a JSON value that is neither \<^verbatim>\<open>null\<close> nor \<^verbatim>\<open>undefined\<close>.\<close>

fun length_property :: "json \<Rightarrow> json option" where
  "length_property (JStr s) = Some (JNum (of_nat (length s)))"
| "length_property (JArr xs) = Some (JNum (of_nat (length xs)))"
| "length_property (JObj kvs) = map_of kvs ''length''"
| "length_property _ = None"

section \<open>The persisted collections and the handlers' results\<close>

text \<open>
  The two JSON files, as the program writes them.  The fields that the handlers
  only ever fill with strings are strings; \<open>rating\<close> and \<open>comment\<close> hold whatever
  JSON value the handler stored; \<open>status\<close> and \<open>admin_note\<close> may be absent in a
  file written before they were introduced.  The category of an entry is a string,
  an id or, in such an older file, a name; \<open>None\<close> stands for a category that is
  not a string, which the start-up normalisation can leave behind.
\<close>

record FeedbackEntry =
  feedback_id :: string
  category :: "string option"
  rating :: json
  comment :: json
  status :: "string option"
  admin_note :: "string option"
  timestamp :: string
  hash :: string

record Category =
  id' :: string
  name :: json
  description :: json

record state =
  feedback :: "FeedbackEntry list"
  categories :: "Category list"

text \<open>The files as the start-up code creates them (lines 57 to 71).\<close>

definition initial_state :: state where
  "initial_state =
     \<lparr>feedback = [],
      categories = [\<lparr>id' = ''general'', name = JStr ''General'',
                     description = JStr ''General feedback''\<rparr>]\<rparr>"

text \<open>
  What a request reads from outside the program: the value of
  \<^verbatim>\<open>crypto.randomUUID()\<close>, the clock read by \<^verbatim>\<open>new Date()\<close> and the clock read by
  \<^verbatim>\<open>Date.now()\<close> inside \<^verbatim>\<open>hashIdentifier\<close>, both in milliseconds.
\<close>

record env =
  randomUUID :: string
  clock_date :: nat
  clock_hash :: nat

text \<open>
  A value of the word-count object of the analytics endpoint: a number, or a
  string once \<^verbatim>\<open>+ 1\<close> has been applied to something that is not a number.
\<close>

datatype tally = TNum nat | TStr string

datatype reply =
    RError string
  | RCategories "Category list"
  | RCategory Category
  | RSuccess
  | RSubmitted string
  | RFeedbackList "FeedbackEntry list"
  | RFeedback FeedbackEntry
  | RDeleted nat
  | RAnalytics "(string \<times> tally) list"

text \<open>
  The result of a handler: the HTTP status, the JSON body, and the list handed to
  \<^verbatim>\<open>writeFeedback\<close> and to \<^verbatim>\<open>writeCategories\<close> when the handler calls them.
\<close>

record response =
  http_status :: nat
  body :: reply
  writeFeedback :: "FeedbackEntry list option"
  writeCategories :: "Category list option"

definition respond :: "nat \<Rightarrow> reply \<Rightarrow> response" where
  "respond c r = \<lparr>http_status = c, body = r, writeFeedback = None, writeCategories = None\<rparr>"

definition commit :: "state \<Rightarrow> response \<Rightarrow> state" where
  "commit st r =
     \<lparr>feedback = (case writeFeedback r of None \<Rightarrow> feedback st | Some fb \<Rightarrow> fb),
      categories = (case writeCategories r of None \<Rightarrow> categories st | Some cs \<Rightarrow> cs)\<rparr>"

text \<open>A callback either returns or throws (a \<^verbatim>\<open>TypeError\<close>); the handlers' \<^verbatim>\<open>catch\<close> answers 500.\<close>

datatype 'a attempt = Threw | Returned 'a

definition internal_error :: response where
  "internal_error = respond 500 (RError ''Internal server error'')"

definition unauthorized :: response where
  "unauthorized = respond 401 (RError ''Unauthorized'')"

fun findIndex :: "('a \<Rightarrow> bool) \<Rightarrow> 'a list \<Rightarrow> nat option" where
  "findIndex P [] = None"
| "findIndex P (x # xs) = (if P x then Some 0 else map_option Suc (findIndex P xs))"

fun or_default :: "json option \<Rightarrow> json \<Rightarrow> json" where
  "or_default None d = d"
| "or_default (Some v) d = (if truthy (Some v) then v else d)"

section \<open>Category endpoints\<close>

definition get_categories :: "state \<Rightarrow> response" where
  "get_categories st = respond 200 (RCategories (categories st))"

definition get_admin_categories :: "bool \<Rightarrow> state \<Rightarrow> response" where
  "get_admin_categories isAdmin st =
     (if \<not> isAdmin then unauthorized else respond 200 (RCategories (categories st)))"

definition post_category :: "bool \<Rightarrow> env \<Rightarrow> state \<Rightarrow> json option \<Rightarrow> json option \<Rightarrow> response" where
  "post_category isAdmin ev st b_name b_description =
     (if \<not> isAdmin then unauthorized
      else if \<not> truthy b_name then respond 400 (RError ''Name is required'')
      else
        let newCategory = \<lparr>id' = randomUUID ev, name = or_default b_name JNull,
                           description = or_default b_description (JStr [])\<rparr>
        in (respond 201 (RCategory newCategory))
             \<lparr>writeCategories := Some (categories st @ [newCategory])\<rparr>)"

definition put_category :: "bool \<Rightarrow> state \<Rightarrow> string \<Rightarrow> json option \<Rightarrow> json option \<Rightarrow> response" where
  "put_category isAdmin st p_id b_name b_description =
     (if \<not> isAdmin then unauthorized
      else case findIndex (\<lambda>c. id' c = p_id) (categories st) of
        None \<Rightarrow> respond 404 (RError ''Category not found'')
      | Some idx \<Rightarrow>
          let c0 = categories st ! idx;
              c1 = (if truthy b_name then c0\<lparr>name := or_default b_name JNull\<rparr> else c0);
              c2 = (case b_description of None \<Rightarrow> c1 | Some d \<Rightarrow> c1\<lparr>description := d\<rparr>)
          in (respond 200 (RCategory c2))
               \<lparr>writeCategories := Some (list_update (categories st) idx c2)\<rparr>)"

definition delete_category :: "bool \<Rightarrow> state \<Rightarrow> string \<Rightarrow> response" where
  "delete_category isAdmin st p_id =
     (if \<not> isAdmin then unauthorized
      else if \<not> (\<exists>c \<in> set (categories st). id' c = p_id)
        then respond 404 (RError ''Category not found'')
      else if (\<exists>f \<in> set (feedback st). category f = Some p_id)
        then respond 400 (RError ''Cannot delete category in use by feedback'')
      else (respond 200 RSuccess)
             \<lparr>writeCategories := Some (filter (\<lambda>c. id' c \<noteq> p_id) (categories st))\<rparr>)"

section \<open>Submitting feedback\<close>

text \<open>
  \<^verbatim>\<open>hashIdentifier\<close> (lines 101 to 105): the digest of the user-agent header, or of
  the empty string when the header is missing or empty, followed by the decimal
  clock reading.
\<close>

definition hash_input :: "string option \<Rightarrow> nat \<Rightarrow> string" where
  "hash_input userAgent now = (case userAgent of None \<Rightarrow> [] | Some u \<Rightarrow> u) @ natToString now"

definition hashIdentifier :: "runtime \<Rightarrow> string option \<Rightarrow> nat \<Rightarrow> string" where
  "hashIdentifier rt userAgent now = sha256 rt (hash_input userAgent now)"

text \<open>
  \<^verbatim>\<open>categories.find(c => c.name.toLowerCase() === String(category).toLowerCase())\<close>:
  the callback throws at a category whose name is not a string.
\<close>

fun find_byName :: "string \<Rightarrow> Category list \<Rightarrow> Category option attempt" where
  "find_byName q [] = Returned None"
| "find_byName q (c # cs) =
     (case name c of
        JStr n \<Rightarrow> if toLowerCase n = q then Returned (Some c) else find_byName q cs
      | _ \<Rightarrow> Threw)"

text \<open>The category id that lines 250 to 258 leave in \<^verbatim>\<open>categoryId\<close> (\<open>None\<close> for \<^verbatim>\<open>null\<close>).\<close>

definition resolve_category :: "runtime \<Rightarrow> Category list \<Rightarrow> json \<Rightarrow> string option attempt" where
  "resolve_category rt cats b_category =
     (case find (\<lambda>c. strict_eq (JStr (id' c)) b_category) cats of
        Some byId \<Rightarrow> Returned (Some (id' byId))
      | None \<Rightarrow>
          (case find_byName (toLowerCase (toString_json rt b_category)) cats of
             Threw \<Rightarrow> Threw
           | Returned None \<Rightarrow> Returned None
           | Returned (Some byName) \<Rightarrow> Returned (Some (id' byName))))"

text \<open>
  The stored rating is \<^verbatim>\<open>parseInt(rating)\<close>; \<^verbatim>\<open>JSON.stringify\<close> writes \<^verbatim>\<open>NaN\<close> to the
  file as \<^verbatim>\<open>null\<close>.
\<close>

definition stored_rating :: "runtime \<Rightarrow> json \<Rightarrow> json" where
  "stored_rating rt b_rating =
     (case parseInt rt b_rating of None \<Rightarrow> JNull | Some i \<Rightarrow> JNum (of_int i))"

definition post_feedback ::
  "runtime \<Rightarrow> env \<Rightarrow> state \<Rightarrow> string option \<Rightarrow> json option \<Rightarrow> json option \<Rightarrow> json option \<Rightarrow> response" where
  "post_feedback rt ev st userAgent b_category b_rating b_comment =
     (case (b_category, b_rating, b_comment) of
        (Some v_category, Some v_rating, Some v_comment) \<Rightarrow>
          if \<not> truthy b_category \<or> \<not> truthy b_rating \<or> \<not> truthy b_comment
            then respond 400 (RError ''All fields are required'')
          else if lessThan_js (toNumber rt (length_property v_comment)) (Num 5)
            then respond 400 (RError ''Comment must be at least 5 characters long'')
          else if lessThan_js (toNumber rt b_rating) (Num 1)
                  \<or> lessThan_js (Num 5) (toNumber rt b_rating)
            then respond 400 (RError ''Rating must be between 1 and 5'')
          else
            (case resolve_category rt (categories st) v_category of
               Threw \<Rightarrow> internal_error
             | Returned None \<Rightarrow> respond 400 (RError ''Invalid category'')
             | Returned (Some categoryId) \<Rightarrow>
                 if categoryId = [] then respond 400 (RError ''Invalid category'')
                 else
                   let newFeedback =
                         \<lparr>feedback_id = randomUUID ev,
                          category = Some categoryId,
                          rating = stored_rating rt v_rating,
                          comment = v_comment,
                          status = Some ''open'',
                          admin_note = Some [],
                          timestamp = toISOString rt (clock_date ev),
                          hash = hashIdentifier rt userAgent (clock_hash ev)\<rparr>
                   in (respond 201 (RSubmitted (feedback_id newFeedback)))
                        \<lparr>writeFeedback := Some (feedback st @ [newFeedback])\<rparr>)
      | _ \<Rightarrow> respond 400 (RError ''All fields are required''))"

section \<open>Administrative feedback endpoints\<close>

subsection \<open>\<^verbatim>\<open>Array.prototype.sort\<close> with a comparator\<close>

text \<open>
  The sort is stable.  The comparator enters through the test
  \<^verbatim>\<open>comparator(x, y) > 0\<close>, which is false when the comparator returns \<^verbatim>\<open>NaN\<close>.
  An element is placed behind those it compares greater than.  With a consistent
  comparator every stable sort returns this list; with an inconsistent one (a
  comparator that returns \<^verbatim>\<open>NaN\<close> for some pairs) the language leaves the order
  to the implementation, and the order of Node can differ from this one.
\<close>

fun insert_sorted :: "('a \<Rightarrow> 'a \<Rightarrow> bool) \<Rightarrow> 'a \<Rightarrow> 'a list \<Rightarrow> 'a list" where
  "insert_sorted positive x [] = [x]"
| "insert_sorted positive x (y # ys) =
     (if positive x y then y # insert_sorted positive x ys else x # y # ys)"

fun sort_js :: "('a \<Rightarrow> 'a \<Rightarrow> bool) \<Rightarrow> 'a list \<Rightarrow> 'a list" where
  "sort_js positive [] = []"
| "sort_js positive (x # xs) = insert_sorted positive x (sort_js positive xs)"

text \<open>\<^verbatim>\<open>(a, b) => new Date(b.timestamp) - new Date(a.timestamp)\<close> is positive:\<close>

definition newest_first :: "runtime \<Rightarrow> FeedbackEntry \<Rightarrow> FeedbackEntry \<Rightarrow> bool" where
  "newest_first rt a b =
     (case (dateParse rt (timestamp b), dateParse rt (timestamp a)) of
        (Some tb, Some ta) \<Rightarrow> 0 < tb - ta
      | _ \<Rightarrow> False)"

subsection \<open>\<^verbatim>\<open>GET /api/admin/feedback\<close>\<close>

text \<open>The query string: each parameter is absent or a string.\<close>

record query =
  q_category :: "string option"
  q_rating :: "string option"
  q_search :: "string option"
  q_startDate :: "string option"
  q_endDate :: "string option"
  q_status :: "string option"

text \<open>\<^verbatim>\<open>new Date(x) >= new Date(y)\<close>: false when either date is invalid.\<close>

definition date_ge :: "int option \<Rightarrow> int option \<Rightarrow> bool" where
  "date_ge a b = (case (a, b) of (Some x, Some y) \<Rightarrow> y \<le> x | _ \<Rightarrow> False)"

definition date_le :: "int option \<Rightarrow> int option \<Rightarrow> bool" where
  "date_le a b = (case (a, b) of (Some x, Some y) \<Rightarrow> x \<le> y | _ \<Rightarrow> False)"

text \<open>\<^verbatim>\<open>f.status || 'open'\<close>\<close>

definition status_or_open :: "FeedbackEntry \<Rightarrow> string" where
  "status_or_open f = (case status f of None \<Rightarrow> ''open'' | Some s \<Rightarrow> if s = [] then ''open'' else s)"

text \<open>
  The search callback of lines 343 to 346.  \<^verbatim>\<open>f.comment.toLowerCase\<close> is not a
  function when the comment is a number, \<^verbatim>\<open>true\<close>, an array or an object: the
  callback throws.
\<close>

definition search_comment :: "string \<Rightarrow> json \<Rightarrow> bool attempt" where
  "search_comment q c =
     (if \<not> truthy (Some c) then Returned False
      else case c of JStr s \<Rightarrow> Returned (includes_str (toLowerCase s) q) | _ \<Rightarrow> Threw)"

definition search_note :: "string \<Rightarrow> string option \<Rightarrow> bool" where
  "search_note q n = (case n of None \<Rightarrow> False | Some s \<Rightarrow> s \<noteq> [] \<and> includes_str (toLowerCase s) q)"

definition search_callback :: "string \<Rightarrow> FeedbackEntry \<Rightarrow> bool attempt" where
  "search_callback q f =
     (case search_comment q (comment f) of
        Threw \<Rightarrow> Threw
      | Returned True \<Rightarrow> Returned True
      | Returned False \<Rightarrow> Returned (search_note q (admin_note f)))"

fun filter_attempt :: "('a \<Rightarrow> bool attempt) \<Rightarrow> 'a list \<Rightarrow> 'a list attempt" where
  "filter_attempt p [] = Returned []"
| "filter_attempt p (x # xs) =
     (case p x of
        Threw \<Rightarrow> Threw
      | Returned b \<Rightarrow>
          (case filter_attempt p xs of
             Threw \<Rightarrow> Threw
           | Returned ys \<Rightarrow> Returned (if b then x # ys else ys)))"

definition rating_equals :: "json \<Rightarrow> int option \<Rightarrow> bool" where
  "rating_equals r n = (case n of None \<Rightarrow> False | Some i \<Rightarrow> strict_eq r (JNum (of_int i)))"

text \<open>The six filters of lines 317 to 347, in the order the handler applies them.\<close>

definition by_category :: "query \<Rightarrow> FeedbackEntry list \<Rightarrow> FeedbackEntry list" where
  "by_category q fs =
     (case q_category q of
        Some c \<Rightarrow> if c \<noteq> [] \<and> c \<noteq> ''all'' then filter (\<lambda>f. category f = Some c) fs else fs
      | None \<Rightarrow> fs)"

definition by_rating :: "query \<Rightarrow> FeedbackEntry list \<Rightarrow> FeedbackEntry list" where
  "by_rating q fs =
     (case q_rating q of
        Some r \<Rightarrow> if r \<noteq> [] \<and> r \<noteq> ''all''
                  then filter (\<lambda>f. rating_equals (rating f) (parseInt_string r)) fs else fs
      | None \<Rightarrow> fs)"

definition by_status :: "query \<Rightarrow> FeedbackEntry list \<Rightarrow> FeedbackEntry list" where
  "by_status q fs =
     (case q_status q of
        Some s \<Rightarrow> if s \<noteq> [] \<and> s \<noteq> ''all'' then filter (\<lambda>f. status_or_open f = s) fs else fs
      | None \<Rightarrow> fs)"

definition by_startDate :: "runtime \<Rightarrow> query \<Rightarrow> FeedbackEntry list \<Rightarrow> FeedbackEntry list" where
  "by_startDate rt q fs =
     (case q_startDate q of
        Some d \<Rightarrow> if d \<noteq> []
                  then filter (\<lambda>f. date_ge (dateParse rt (timestamp f)) (dateParse rt d)) fs
                  else fs
      | None \<Rightarrow> fs)"

definition by_endDate :: "runtime \<Rightarrow> query \<Rightarrow> FeedbackEntry list \<Rightarrow> FeedbackEntry list" where
  "by_endDate rt q fs =
     (case q_endDate q of
        Some d \<Rightarrow> if d \<noteq> []
                  then filter (\<lambda>f. date_le (dateParse rt (timestamp f)) (dateParse rt d)) fs
                  else fs
      | None \<Rightarrow> fs)"

definition by_search :: "query \<Rightarrow> FeedbackEntry list \<Rightarrow> FeedbackEntry list attempt" where
  "by_search q fs =
     (case q_search q of
        Some s \<Rightarrow> if s \<noteq> [] then filter_attempt (search_callback (toLowerCase s)) fs
                  else Returned fs
      | None \<Rightarrow> Returned fs)"

definition get_admin_feedback :: "runtime \<Rightarrow> bool \<Rightarrow> state \<Rightarrow> query \<Rightarrow> response" where
  "get_admin_feedback rt isAdmin st q =
     (if \<not> isAdmin then unauthorized
      else
        case by_search q (by_endDate rt q (by_startDate rt q
               (by_status q (by_rating q (by_category q (feedback st)))))) of
          Threw \<Rightarrow> internal_error
        | Returned filteredFeedback \<Rightarrow>
            respond 200 (RFeedbackList (sort_js (newest_first rt) filteredFeedback)))"

subsection \<open>Single entries\<close>

definition get_feedback_by_id :: "bool \<Rightarrow> state \<Rightarrow> string \<Rightarrow> response" where
  "get_feedback_by_id isAdmin st p_id =
     (if \<not> isAdmin then unauthorized
      else case find (\<lambda>f. feedback_id f = p_id) (feedback st) of
        None \<Rightarrow> respond 404 (RError ''Feedback not found'')
      | Some item \<Rightarrow> respond 200 (RFeedback item))"

definition allowed :: "string list" where
  "allowed = [''open'', ''in_progress'', ''completed'']"

text \<open>
  \<^verbatim>\<open>PUT /api/admin/feedback/:id\<close> (lines 379 to 423).  The entry is changed in
  memory field by field; a failed check returns before \<^verbatim>\<open>writeFeedback\<close>, so the
  changes made up to there are dropped.
\<close>

definition update_status :: "json option \<Rightarrow> FeedbackEntry \<Rightarrow> FeedbackEntry option" where
  "update_status b_status e =
     (case b_status of
        None \<Rightarrow> Some e
      | Some v \<Rightarrow>
          (if (\<exists>a \<in> set allowed. strict_eq (JStr a) v)
           then (case v of JStr s \<Rightarrow> Some (e\<lparr>status := Some s\<rparr>) | _ \<Rightarrow> None)
           else None))"

definition update_admin_note :: "runtime \<Rightarrow> json option \<Rightarrow> FeedbackEntry \<Rightarrow> FeedbackEntry" where
  "update_admin_note rt b_admin_note e =
     (case b_admin_note of
        None \<Rightarrow> e
      | Some n \<Rightarrow> e\<lparr>admin_note := Some (toString_json rt n)\<rparr>)"

definition update_category :: "Category list \<Rightarrow> json option \<Rightarrow> FeedbackEntry \<Rightarrow> FeedbackEntry option" where
  "update_category cats b_category e =
     (case b_category of
        None \<Rightarrow> Some e
      | Some c \<Rightarrow>
          (if (\<exists>k \<in> set cats. strict_eq (JStr (id' k)) c)
           then (case c of JStr s \<Rightarrow> Some (e\<lparr>category := Some s\<rparr>) | _ \<Rightarrow> None)
           else None))"

definition put_feedback ::
  "runtime \<Rightarrow> bool \<Rightarrow> state \<Rightarrow> string \<Rightarrow> json option \<Rightarrow> json option \<Rightarrow> json option \<Rightarrow> response" where
  "put_feedback rt isAdmin st p_id b_status b_admin_note b_category =
     (if \<not> isAdmin then unauthorized
      else case findIndex (\<lambda>f. feedback_id f = p_id) (feedback st) of
        None \<Rightarrow> respond 404 (RError ''Feedback not found'')
      | Some idx \<Rightarrow>
          (case update_status b_status (feedback st ! idx) of
             None \<Rightarrow> respond 400 (RError ''Invalid status'')
           | Some e1 \<Rightarrow>
               (case update_category (categories st) b_category
                       (update_admin_note rt b_admin_note e1) of
                  None \<Rightarrow> respond 400 (RError ''Invalid category'')
                | Some e3 \<Rightarrow>
                    (respond 200 (RFeedback e3))
                      \<lparr>writeFeedback := Some (list_update (feedback st) idx e3)\<rparr>)))"

definition delete_feedback :: "bool \<Rightarrow> state \<Rightarrow> string \<Rightarrow> response" where
  "delete_feedback isAdmin st p_id =
     (if \<not> isAdmin then unauthorized
      else if \<not> (\<exists>f \<in> set (feedback st). feedback_id f = p_id)
        then respond 404 (RError ''Feedback not found'')
      else (respond 200 (RDeleted 1))
             \<lparr>writeFeedback := Some (filter (\<lambda>f. feedback_id f \<noteq> p_id) (feedback st))\<rparr>)"

text \<open>
  \<^verbatim>\<open>POST /api/admin/feedback/bulk-delete\<close> (lines 447 to 467).  \<^verbatim>\<open>set.has\<close> compares a
  stored id, a string, with the elements of \<^verbatim>\<open>ids\<close>: only an equal string matches.
\<close>

definition bulk_delete :: "bool \<Rightarrow> state \<Rightarrow> json option \<Rightarrow> response" where
  "bulk_delete isAdmin st b_ids =
     (if \<not> isAdmin then unauthorized
      else case b_ids of
        Some (JArr ids) \<Rightarrow>
          if ids = [] then respond 400 (RError ''ids array is required'')
          else
            let before_n = length (feedback st);
                updated = filter (\<lambda>f. \<not> (\<exists>i \<in> set ids. strict_eq i (JStr (feedback_id f))))
                            (feedback st);
                deleted = before_n - length updated
            in (respond 200 (RDeleted deleted))\<lparr>writeFeedback := Some updated\<rparr>
      | _ \<Rightarrow> respond 400 (RError ''ids array is required''))"

section \<open>The word-frequency summary of \<^verbatim>\<open>GET /api/admin/analytics\<close>\<close>

text \<open>\<^verbatim>\<open>\w\<close>: a letter, a digit or the underscore.\<close>

definition isWordChar :: "char \<Rightarrow> bool" where
  "isWordChar c =
     (let n = (of_char c :: nat) in
      (48 \<le> n \<and> n \<le> 57) \<or> (65 \<le> n \<and> n \<le> 90) \<or> (97 \<le> n \<and> n \<le> 122) \<or> n = 95)"

text \<open>
  \<^verbatim>\<open>s.match(/\b\w{4,}\b/g) || []\<close>.  A match starts at a word boundary, takes word
  characters greedily and must end at a word boundary: it is a whole run of word
  characters, and the run has at least four of them.  \<open>word_runs cur s\<close> scans
  \<open>s\<close> with the run read so far in \<open>cur\<close>.
\<close>

fun word_runs :: "string \<Rightarrow> string \<Rightarrow> string list" where
  "word_runs cur [] = (if cur = [] then [] else [cur])"
| "word_runs cur (c # cs) =
     (if isWordChar c then word_runs (cur @ [c]) cs
      else (if cur = [] then [] else [cur]) @ word_runs [] cs)"

definition match_words :: "string \<Rightarrow> string list" where
  "match_words s = filter (\<lambda>w. 4 \<le> length w) (word_runs [] s)"

text \<open>
  The accumulator of the \<^verbatim>\<open>reduce\<close> is the plain object \<^verbatim>\<open>{}\<close>: reading a key that
  is not an own property finds the properties of \<^verbatim>\<open>Object.prototype\<close>.
  \<open>inherited k\<close> is the string that \<^verbatim>\<open>+ 1\<close> makes of such a property.
\<close>

definition prototype_functions :: "(string \<times> string) list" where
  "prototype_functions =
     [(''constructor'', ''Object''),
      (''hasOwnProperty'', ''hasOwnProperty''),
      (''isPrototypeOf'', ''isPrototypeOf''),
      (''propertyIsEnumerable'', ''propertyIsEnumerable''),
      (''toLocaleString'', ''toLocaleString''),
      (''toString'', ''toString''),
      (''valueOf'', ''valueOf''),
      (''__defineGetter__'', ''__defineGetter__''),
      (''__defineSetter__'', ''__defineSetter__''),
      (''__lookupGetter__'', ''__lookupGetter__''),
      (''__lookupSetter__'', ''__lookupSetter__'')]"

definition inherited :: "string \<Rightarrow> string option" where
  "inherited k =
     (if k = ''__proto__'' then Some ''[object Object]''
      else case map_of prototype_functions k of
        None \<Rightarrow> None
      | Some f \<Rightarrow> Some (''function '' @ f @ ''() { [native code] }''))"

text \<open>
  \<^verbatim>\<open>acc[word] = (acc[word] || 0) + 1\<close> on the own properties \<open>acc\<close>, kept in creation
  order.  Assigning a string to \<^verbatim>\<open>__proto__\<close> runs the inherited setter, which
  ignores it: no own property appears.
\<close>

definition plus_one :: "(string \<times> tally) list \<Rightarrow> string \<Rightarrow> tally" where
  "plus_one acc word =
     (case map_of acc word of
        Some (TNum n) \<Rightarrow> TNum (n + 1)
      | Some (TStr s) \<Rightarrow> if s = [] then TNum 1 else TStr (s @ ''1'')
      | None \<Rightarrow> (case inherited word of None \<Rightarrow> TNum 1 | Some s \<Rightarrow> TStr (s @ ''1'')))"

definition assign :: "(string \<times> 'a) list \<Rightarrow> string \<Rightarrow> 'a \<Rightarrow> (string \<times> 'a) list" where
  "assign acc k v =
     (if k \<in> fst ` set acc then map (\<lambda>(k', v'). if k' = k then (k', v) else (k', v')) acc
      else acc @ [(k, v)])"

definition bump :: "(string \<times> tally) list \<Rightarrow> string \<Rightarrow> (string \<times> tally) list" where
  "bump acc word =
     (if word = ''__proto__'' then acc else assign acc word (plus_one acc word))"

text \<open>
  \<^verbatim>\<open>Object.entries\<close>: the keys that are array indices first, in ascending numeric
  order, then the other keys in creation order.
\<close>

definition isArrayIndex :: "string \<Rightarrow> bool" where
  "isArrayIndex k =
     (k \<noteq> [] \<and> list_all (isDigitIn 10) k \<and> (k = ''0'' \<or> hd k \<noteq> CHR ''0'')
      \<and> digitsValue 10 k < 2 ^ 32 - 1)"

definition object_entries :: "(string \<times> 'a) list \<Rightarrow> (string \<times> 'a) list" where
  "object_entries props =
     sort_key (\<lambda>p. digitsValue 10 (fst p)) (filter (\<lambda>p. isArrayIndex (fst p)) props)
     @ filter (\<lambda>p. \<not> isArrayIndex (fst p)) props"

text \<open>\<^verbatim>\<open>([, a], [, b]) => b - a\<close> is positive exactly when \<^verbatim>\<open>a < b\<close> as numbers.\<close>

definition tally_number :: "tally \<Rightarrow> jsnumber" where
  "tally_number t = (case t of TNum n \<Rightarrow> Num (of_nat n) | TStr s \<Rightarrow> StringToNumber s)"

definition larger_count_first :: "string \<times> tally \<Rightarrow> string \<times> tally \<Rightarrow> bool" where
  "larger_count_first x y = lessThan_js (tally_number (snd x)) (tally_number (snd y))"

text \<open>Lines 507 to 517.  \<^verbatim>\<open>join\<close> prints a \<^verbatim>\<open>null\<close> element as the empty string.\<close>

definition commonWords :: "runtime \<Rightarrow> FeedbackEntry list \<Rightarrow> (string \<times> tally) list" where
  "commonWords rt fb =
     (let allComments =
            toLowerCase (join '' ''
              (map (\<lambda>f. if comment f = JNull then [] else toString_json rt (comment f)) fb));
          words = match_words allComments;
          wordCount = foldl bump [] words
      in take 10 (sort_js larger_count_first (object_entries wordCount)))"

text \<open>Of the analytics response only the \<^verbatim>\<open>commonWords\<close> field is modelled.\<close>

definition get_analytics :: "runtime \<Rightarrow> bool \<Rightarrow> state \<Rightarrow> response" where
  "get_analytics rt isAdmin st =
     (if \<not> isAdmin then unauthorized
      else respond 200 (RAnalytics (commonWords rt (feedback st))))"

section \<open>The server as a transition system\<close>

datatype request =
    GetCategories
  | AdminGetCategories
  | PostCategory "json option" "json option"
  | PutCategory string "json option" "json option"
  | DeleteCategory string
  | PostFeedback "string option" "json option" "json option" "json option"
  | GetFeedback query
  | GetFeedbackById string
  | PutFeedback string "json option" "json option" "json option"
  | DeleteFeedback string
  | BulkDelete "json option"
  | GetAnalytics

text \<open>\<open>isAdmin\<close> is the flag of the request's session (\<^verbatim>\<open>req.session.isAdmin\<close>).\<close>

fun handle :: "runtime \<Rightarrow> env \<Rightarrow> bool \<Rightarrow> state \<Rightarrow> request \<Rightarrow> response" where
  "handle rt ev isAdmin st GetCategories = get_categories st"
| "handle rt ev isAdmin st AdminGetCategories = get_admin_categories isAdmin st"
| "handle rt ev isAdmin st (PostCategory n d) = post_category isAdmin ev st n d"
| "handle rt ev isAdmin st (PutCategory i n d) = put_category isAdmin st i n d"
| "handle rt ev isAdmin st (DeleteCategory i) = delete_category isAdmin st i"
| "handle rt ev isAdmin st (PostFeedback ua c r m) = post_feedback rt ev st ua c r m"
| "handle rt ev isAdmin st (GetFeedback q) = get_admin_feedback rt isAdmin st q"
| "handle rt ev isAdmin st (GetFeedbackById i) = get_feedback_by_id isAdmin st i"
| "handle rt ev isAdmin st (PutFeedback i s n c) = put_feedback rt isAdmin st i s n c"
| "handle rt ev isAdmin st (DeleteFeedback i) = delete_feedback isAdmin st i"
| "handle rt ev isAdmin st (BulkDelete ids) = bulk_delete isAdmin st ids"
| "handle rt ev isAdmin st GetAnalytics = get_analytics rt isAdmin st"

subsection \<open>The start-up normalisation\<close>

text \<open>
  Lines 108 to 134, run once when the server starts.
  \<^verbatim>\<open>Object.fromEntries(categories.map(c => [c.name.toLowerCase(), c.id]))\<close> throws at a
  category whose name is not a string; the \<^verbatim>\<open>catch\<close> then skips the normalisation.
\<close>

fun byName_entries :: "Category list \<Rightarrow> (string \<times> string) list attempt" where
  "byName_entries [] = Returned []"
| "byName_entries (c # cs) =
     (case name c of
        JStr n \<Rightarrow>
          (case byName_entries cs of
             Threw \<Rightarrow> Threw
           | Returned es \<Rightarrow> Returned ((toLowerCase n, id' c) # es))
      | _ \<Rightarrow> Threw)"

text \<open>
  The loop body for one entry, with the entry it leaves and whether it set
  \<^verbatim>\<open>changed\<close>.  Of two categories with the same lowercased name the later one is in
  \<^verbatim>\<open>byName\<close>.  \<^verbatim>\<open>byName\<close> is a plain object: a key that is not its own finds the
  properties of \<^verbatim>\<open>Object.prototype\<close>, and the entry's category becomes a function or
  an object, which is no string any more (\<open>None\<close>).
\<close>

definition normalize_category :: "string list \<Rightarrow> (string \<times> string) list \<Rightarrow> FeedbackEntry \<Rightarrow> FeedbackEntry \<times> bool" where
  "normalize_category ids es f =
     (case category f of
        None \<Rightarrow> (f, False)
      | Some s \<Rightarrow>
          if s \<in> set ids then (f, False)
          else
            (case map_of (rev es) (toLowerCase s) of
               Some i \<Rightarrow> if i \<noteq> [] then (f\<lparr>category := Some i\<rparr>, True) else (f, False)
             | None \<Rightarrow>
                 (case inherited (toLowerCase s) of
                    Some p \<Rightarrow> (f\<lparr>category := None\<rparr>, True)
                  | None \<Rightarrow> (f, False))))"

definition normalize_status :: "FeedbackEntry \<Rightarrow> FeedbackEntry \<times> bool" where
  "normalize_status f =
     (if status f = None \<or> status f = Some [] then (f\<lparr>status := Some ''open''\<rparr>, True)
      else (f, False))"

definition normalize_admin_note :: "FeedbackEntry \<Rightarrow> FeedbackEntry \<times> bool" where
  "normalize_admin_note f =
     (if admin_note f = None then (f\<lparr>admin_note := Some []\<rparr>, True) else (f, False))"

definition normalize_entry :: "string list \<Rightarrow> (string \<times> string) list \<Rightarrow> FeedbackEntry \<Rightarrow> FeedbackEntry \<times> bool" where
  "normalize_entry ids es f =
     (let (f1, c1) = normalize_category ids es f;
          (f2, c2) = normalize_status f1;
          (f3, c3) = normalize_admin_note f2
      in (f3, c1 \<or> c2 \<or> c3))"

text \<open>The list that \<^verbatim>\<open>normalizeData\<close> hands to \<^verbatim>\<open>writeFeedback\<close>, if it writes.\<close>

definition normalizeData :: "state \<Rightarrow> FeedbackEntry list option" where
  "normalizeData st =
     (case byName_entries (categories st) of
        Threw \<Rightarrow> None
      | Returned es \<Rightarrow>
          let rs = map (normalize_entry (map id' (categories st)) es) (feedback st);
              changed = (\<exists>r \<in> set rs. snd r)
          in if changed then Some (map fst rs) else None)"

definition restart :: "state \<Rightarrow> state" where
  "restart st = (case normalizeData st of None \<Rightarrow> st | Some fb \<Rightarrow> st\<lparr>feedback := fb\<rparr>)"

text \<open>
  The persisted states the server can reach from the files it creates at start-up,
  by requests one after the other and by restarts.  Login, logout and the session
  check touch only the session and are left out.
\<close>

inductive reachable :: "runtime \<Rightarrow> state \<Rightarrow> bool" for rt :: runtime where
  start: "reachable rt initial_state"
| request: "reachable rt st \<Longrightarrow> reachable rt (commit st (handle rt ev isAdmin st req))"
| restarted: "reachable rt st \<Longrightarrow> reachable rt (restart st)"

section \<open>The query of \<^verbatim>\<open>GET /api/admin/feedback\<close> as a predicate on entries\<close>

text \<open>The text \<open>t\<close> contains \<open>q\<close>, letter case apart.\<close>

definition contains_ci :: "string \<Rightarrow> string \<Rightarrow> bool" where
  "contains_ci t q \<longleftrightarrow> sublist (toLowerCase q) (toLowerCase t)"

definition mentions :: "string \<Rightarrow> FeedbackEntry \<Rightarrow> bool" where
  "mentions q f \<longleftrightarrow>
     (case comment f of JStr t \<Rightarrow> contains_ci t q | _ \<Rightarrow> False)
     \<or> (case admin_note f of Some n \<Rightarrow> contains_ci n q | None \<Rightarrow> False)"

text \<open>
  The conjunction of the filters of the parameters that the query supplies:
  category equal to the given id, rating equal to the given integer, status
  (\<^verbatim>\<open>open\<close> when the entry has none) equal to the given value, timestamp within the
  range of dates, bounds included, and the search text contained in the comment
  or in the admin note.
\<close>

definition supplied_filters :: "runtime \<Rightarrow> query \<Rightarrow> FeedbackEntry \<Rightarrow> bool" where
  "supplied_filters rt q f \<longleftrightarrow>
     (case q_category q of None \<Rightarrow> True | Some c \<Rightarrow> category f = Some c)
     \<and> (case q_rating q of None \<Rightarrow> True
         | Some r \<Rightarrow> rating_equals (rating f) (parseInt_string r))
     \<and> (case q_status q of None \<Rightarrow> True | Some s \<Rightarrow> status_or_open f = s)
     \<and> (case q_startDate q of None \<Rightarrow> True
         | Some d \<Rightarrow> date_ge (dateParse rt (timestamp f)) (dateParse rt d))
     \<and> (case q_endDate q of None \<Rightarrow> True
         | Some d \<Rightarrow> date_le (dateParse rt (timestamp f)) (dateParse rt d))
     \<and> (case q_search q of None \<Rightarrow> True | Some s \<Rightarrow> mentions s f)"

text \<open>
  The parameters that the handler takes as filters: an empty parameter is none, and
  neither is \<^verbatim>\<open>all\<close> for \<^verbatim>\<open>category\<close>, \<^verbatim>\<open>rating\<close> and \<^verbatim>\<open>status\<close>.
\<close>

definition active :: "bool \<Rightarrow> string option \<Rightarrow> string option" where
  "active wildcard p =
     (case p of
        None \<Rightarrow> None
      | Some s \<Rightarrow> if s = [] \<or> (wildcard \<and> s = ''all'') then None else Some s)"

definition effective :: "query \<Rightarrow> query" where
  "effective q =
     \<lparr>q_category = active True (q_category q),
      q_rating = active True (q_rating q),
      q_search = active False (q_search q),
      q_startDate = active False (q_startDate q),
      q_endDate = active False (q_endDate q),
      q_status = active True (q_status q)\<rparr>"

text \<open>A query that supplies \<^verbatim>\<open>status=all\<close> and nothing else.\<close>

definition query_all :: query where
  "query_all =
     \<lparr>q_category = None, q_rating = None, q_search = None, q_startDate = None,
      q_endDate = None, q_status = Some ''all''\<rparr>"

text \<open>A query with all six parameters.\<close>

definition query_six :: query where
  "query_six =
     \<lparr>q_category = Some ''general'', q_rating = Some ''2'', q_search = Some ''FAST'',
      q_startDate = Some ''1500'', q_endDate = Some ''2000'', q_status = Some ''completed''\<rparr>"

section \<open>Values for evaluating the handlers\<close>

text \<open>
  A runtime to run the handlers on examples: it prints an instant as its decimal
  count of milliseconds and parses such a text back, and it leaves the digest
  input visible.  No example has a number that is not an integer.
\<close>

definition test_runtime :: runtime where
  "test_runtime =
     \<lparr>sha256 = (\<lambda>s. ''sha256('' @ s @ '')''),
      fractionToString = (\<lambda>r. ''0.5''),
      dateParse = (\<lambda>s. if s \<noteq> [] \<and> list_all (isDigitIn 10) s
                          then Some (int (digitsValue 10 s)) else None),
      toISOString = natToString\<rparr>"

definition entry1 :: FeedbackEntry where
  "entry1 =
     \<lparr>feedback_id = ''f1'', category = Some ''general'', rating = JNum 4,
      comment = JStr ''Great course'', status = Some ''open'', admin_note = Some [],
      timestamp = ''1000'', hash = ''h1''\<rparr>"

definition entry2 :: FeedbackEntry where
  "entry2 =
     \<lparr>feedback_id = ''f2'', category = Some ''general'', rating = JNum 2,
      comment = JStr ''Too fast for me'', status = Some ''completed'',
      admin_note = Some ''Slides updated'', timestamp = ''2000'', hash = ''h2''\<rparr>"

definition test_state :: state where
  "test_state = \<lparr>feedback = [entry1, entry2], categories = categories initial_state\<rparr>"

definition env1 :: env where
  "env1 = \<lparr>randomUUID = ''uuid-1'', clock_date = 1700000000000, clock_hash = 1700000000000\<rparr>"

definition env2 :: env where
  "env2 = \<lparr>randomUUID = ''uuid-2'', clock_date = 1700000000000, clock_hash = 1700000000000\<rparr>"

text \<open>A well-formed submission, and the state after it.\<close>

definition submit1 :: request where
  "submit1 =
     PostFeedback (Some ''Mozilla/5.0'') (Some (JStr ''general'')) (Some (JNum 4))
       (Some (JStr ''Great course''))"

definition state1 :: state where
  "state1 = commit initial_state (handle test_runtime env1 False initial_state submit1)"

text \<open>The same client submits again, and the clock still shows the same millisecond.\<close>

definition state2 :: state where
  "state2 = commit state1 (handle test_runtime env2 False state1 submit1)"

text \<open>Two entries as \<^verbatim>\<open>POST /api/feedback\<close> stores them, for the word count.\<close>

definition entry3 :: FeedbackEntry where
  "entry3 =
     \<lparr>feedback_id = ''f3'', category = Some ''general'', rating = JNum 5,
      comment = JStr ''constructor'', status = Some ''open'', admin_note = Some [],
      timestamp = ''3000'', hash = ''h3''\<rparr>"

definition entry4 :: FeedbackEntry where
  "entry4 =
     \<lparr>feedback_id = ''f4'', category = Some ''general'', rating = JNum 5,
      comment = JStr ''__proto__ works'', status = Some ''open'', admin_note = Some [],
      timestamp = ''4000'', hash = ''h4''\<rparr>"

text \<open>
  An administrator adds a category whose name is the number 5 and then a category
  named \<^verbatim>\<open>Other\<close>; \<^verbatim>\<open>POST /api/admin/categories\<close> accepts both names.
\<close>

definition add_numbered :: request where
  "add_numbered = PostCategory (Some (JNum 5)) None"

definition add_other :: request where
  "add_other = PostCategory (Some (JStr ''Other'')) None"

definition state_numbered :: state where
  "state_numbered = commit initial_state (handle test_runtime env1 True initial_state add_numbered)"

definition state_other :: state where
  "state_other = commit state_numbered (handle test_runtime env2 True state_numbered add_other)"

section \<open>Auxiliary facts\<close>

lemma strict_eq_JStr_right: "strict_eq v (JStr s) \<longleftrightarrow> v = JStr s"
  by (cases v) auto

lemma strict_eq_JStr_left: "strict_eq (JStr s) v \<longleftrightarrow> v = JStr s"
  by (cases v) auto

lemma findIndex_Some:
  "findIndex P xs = Some i \<Longrightarrow> i < length xs \<and> P (xs ! i) \<and> (\<forall>j < i. \<not> P (xs ! j))"
proof (induction xs arbitrary: i)
  case Nil
  then show ?case by simp
next
  case (Cons x xs)
  show ?case
  proof (cases "P x")
    case True
    with Cons.prems show ?thesis by simp
  next
    case False
    with Cons.prems obtain k where k: "findIndex P xs = Some k" "i = Suc k"
      by auto
    from Cons.IH [OF k(1)] False k(2) show ?thesis
      by (auto simp: less_Suc_eq_0_disj)
  qed
qed

lemma findIndex_None: "findIndex P xs = None \<longleftrightarrow> (\<forall>x \<in> set xs. \<not> P x)"
  by (induction xs) auto

lemma respond_simps [simp]:
  "http_status (respond c r) = c"
  "body (respond c r) = r"
  "writeFeedback (respond c r) = None"
  "writeCategories (respond c r) = None"
  by (simp_all add: respond_def)

lemma unauthorized_simps [simp]:
  "http_status unauthorized = 401"
  "writeFeedback unauthorized = None"
  "writeCategories unauthorized = None"
  by (simp_all add: unauthorized_def)

lemma internal_error_simps [simp]:
  "http_status internal_error = 500"
  "writeFeedback internal_error = None"
  "writeCategories internal_error = None"
  by (simp_all add: internal_error_def)

subsection \<open>Which handler writes what, and when\<close>

lemma post_category_writes:
  "writeFeedback (post_category isAdmin ev st n d) = None"
  "400 \<le> http_status (post_category isAdmin ev st n d)
     \<Longrightarrow> writeCategories (post_category isAdmin ev st n d) = None"
  by (auto simp: post_category_def Let_def split: if_splits)

lemma put_category_writes:
  "writeFeedback (put_category isAdmin st i n d) = None"
  "400 \<le> http_status (put_category isAdmin st i n d)
     \<Longrightarrow> writeCategories (put_category isAdmin st i n d) = None"
  by (auto simp: put_category_def Let_def split: option.splits if_splits)

lemma delete_category_writes:
  "writeFeedback (delete_category isAdmin st i) = None"
  "400 \<le> http_status (delete_category isAdmin st i)
     \<Longrightarrow> writeCategories (delete_category isAdmin st i) = None"
  by (auto simp: delete_category_def split: if_splits)

lemma post_feedback_writes:
  "writeCategories (post_feedback rt ev st ua c r m) = None"
  "400 \<le> http_status (post_feedback rt ev st ua c r m)
     \<Longrightarrow> writeFeedback (post_feedback rt ev st ua c r m) = None"
  by (auto simp: post_feedback_def Let_def split: option.splits attempt.splits if_splits)

lemma put_feedback_writes:
  "writeCategories (put_feedback rt isAdmin st i s n c) = None"
  "400 \<le> http_status (put_feedback rt isAdmin st i s n c)
     \<Longrightarrow> writeFeedback (put_feedback rt isAdmin st i s n c) = None"
  by (auto simp: put_feedback_def split: option.splits if_splits)

lemma delete_feedback_writes:
  "writeCategories (delete_feedback isAdmin st i) = None"
  "400 \<le> http_status (delete_feedback isAdmin st i)
     \<Longrightarrow> writeFeedback (delete_feedback isAdmin st i) = None"
  by (auto simp: delete_feedback_def split: if_splits)

lemma bulk_delete_writes:
  "writeCategories (bulk_delete isAdmin st ids) = None"
  "400 \<le> http_status (bulk_delete isAdmin st ids)
     \<Longrightarrow> writeFeedback (bulk_delete isAdmin st ids) = None"
  by (auto simp: bulk_delete_def Let_def split: option.splits json.splits if_splits)

lemma read_only_writes:
  "writeFeedback (get_categories st) = None"
  "writeCategories (get_categories st) = None"
  "writeFeedback (get_admin_categories isAdmin st) = None"
  "writeCategories (get_admin_categories isAdmin st) = None"
  "writeFeedback (get_admin_feedback rt isAdmin st q) = None"
  "writeCategories (get_admin_feedback rt isAdmin st q) = None"
  "writeFeedback (get_feedback_by_id isAdmin st i) = None"
  "writeCategories (get_feedback_by_id isAdmin st i) = None"
  "writeFeedback (get_analytics rt isAdmin st) = None"
  "writeCategories (get_analytics rt isAdmin st) = None"
  by (simp_all add: get_categories_def get_admin_categories_def get_admin_feedback_def
      get_feedback_by_id_def get_analytics_def split: option.splits attempt.splits)

section \<open>Claims about single handlers\<close>

text \<open>
  Claim C9.  Every endpoint is atomic with respect to errors: whenever a handler
  answers with an error status (400, 401, 404, and also 500), it has called neither
  \<^verbatim>\<open>writeFeedback\<close> nor \<^verbatim>\<open>writeCategories\<close>; the checks all return before the
  handler's write.
\<close>

theorem error_response_writes_nothing:
  assumes "400 \<le> http_status (handle rt ev isAdmin st req)"
  shows "writeFeedback (handle rt ev isAdmin st req) = None
       \<and> writeCategories (handle rt ev isAdmin st req) = None"
proof (cases req)
  case (PostCategory n d)
  with assms show ?thesis by (simp add: post_category_writes)
next
  case (PutCategory i n d)
  with assms show ?thesis by (simp add: put_category_writes)
next
  case (DeleteCategory i)
  with assms show ?thesis by (simp add: delete_category_writes)
next
  case (PostFeedback ua c r m)
  with assms show ?thesis by (simp add: post_feedback_writes)
next
  case (PutFeedback i s n c)
  with assms show ?thesis by (simp add: put_feedback_writes)
next
  case (DeleteFeedback i)
  with assms show ?thesis by (simp add: delete_feedback_writes)
next
  case (BulkDelete ids)
  with assms show ?thesis by (simp add: bulk_delete_writes)
qed (simp_all add: read_only_writes)

text \<open>
  An update with a valid status and an unknown category: the status was already
  changed in memory when the category check fails, and nothing is written.
\<close>

theorem error_response_writes_nothing_witness:
  "http_status (handle test_runtime env1 True test_state
      (PutFeedback ''f1'' (Some (JStr ''completed'')) None (Some (JStr ''nowhere'')))) = 400
   \<and> writeFeedback (handle test_runtime env1 True test_state
      (PutFeedback ''f1'' (Some (JStr ''completed'')) None (Some (JStr ''nowhere'')))) = None
   \<and> writeCategories (handle test_runtime env1 True test_state
      (PutFeedback ''f1'' (Some (JStr ''completed'')) None (Some (JStr ''nowhere'')))) = None"
proof -
  have code: "http_status (handle test_runtime env1 True test_state
      (PutFeedback ''f1'' (Some (JStr ''completed'')) None (Some (JStr ''nowhere'')))) = 400"
    by (simp add: put_feedback_def test_state_def entry1_def entry2_def initial_state_def
        update_status_def update_admin_note_def update_category_def allowed_def)
  then have "400 \<le> http_status (handle test_runtime env1 True test_state
      (PutFeedback ''f1'' (Some (JStr ''completed'')) None (Some (JStr ''nowhere''))))"
    by simp
  from error_response_writes_nothing [OF this] code show ?thesis
    by simp
qed

lemma test_state_simps [simp]:
  "feedback test_state = [entry1, entry2]"
  "categories test_state = categories initial_state"
  by (simp_all add: test_state_def)

lemma entry_simps [simp]:
  "feedback_id entry1 = ''f1''" "feedback_id entry2 = ''f2''"
  "category entry1 = Some ''general''" "category entry2 = Some ''general''"
  "status entry1 = Some ''open''" "status entry2 = Some ''completed''"
  "timestamp entry1 = ''1000''" "timestamp entry2 = ''2000''"
  "entry1 \<noteq> entry2"
  by (auto simp: entry1_def entry2_def)

text \<open>
  Claim C10.  For an administrator's session, \<^verbatim>\<open>POST /api/admin/feedback/bulk-delete\<close>
  answers 400 and writes nothing when \<^verbatim>\<open>ids\<close> is missing, not an array, or an empty
  array.  Otherwise it answers 200 whether or not an id matches, writes back
  exactly the entries whose \<^verbatim>\<open>feedback_id\<close> is not in \<^verbatim>\<open>ids\<close>, in their order, and
  reports as \<^verbatim>\<open>deleted\<close> the length before minus the length after, which is the
  number of entries whose id is in \<^verbatim>\<open>ids\<close>.
\<close>

theorem bulk_delete_removes_listed_ids:
  assumes "isAdmin"
  shows
    "(\<not> (\<exists>ids. b_ids = Some (JArr ids) \<and> ids \<noteq> []) \<longrightarrow>
        http_status (bulk_delete isAdmin st b_ids) = 400
        \<and> writeFeedback (bulk_delete isAdmin st b_ids) = None
        \<and> writeCategories (bulk_delete isAdmin st b_ids) = None)
     \<and> (\<forall>ids. b_ids = Some (JArr ids) \<and> ids \<noteq> [] \<longrightarrow>
        http_status (bulk_delete isAdmin st b_ids) = 200
        \<and> writeCategories (bulk_delete isAdmin st b_ids) = None
        \<and> writeFeedback (bulk_delete isAdmin st b_ids)
            = Some (filter (\<lambda>f. JStr (feedback_id f) \<notin> set ids) (feedback st))
        \<and> body (bulk_delete isAdmin st b_ids)
            = RDeleted (length (feedback st)
                - length (filter (\<lambda>f. JStr (feedback_id f) \<notin> set ids) (feedback st)))
        \<and> length (feedback st)
              - length (filter (\<lambda>f. JStr (feedback_id f) \<notin> set ids) (feedback st))
            = length (filter (\<lambda>f. JStr (feedback_id f) \<in> set ids) (feedback st)))"
proof (intro conjI impI allI)
  assume "\<not> (\<exists>ids. b_ids = Some (JArr ids) \<and> ids \<noteq> [])"
  then have rejected: "bulk_delete isAdmin st b_ids = respond 400 (RError ''ids array is required'')"
    using assms by (auto simp: bulk_delete_def split: option.splits json.splits)
  show "http_status (bulk_delete isAdmin st b_ids) = 400"
    by (simp add: rejected)
  show "writeFeedback (bulk_delete isAdmin st b_ids) = None"
    by (simp add: rejected)
  show "writeCategories (bulk_delete isAdmin st b_ids) = None"
    by (simp add: rejected)
next
  fix ids
  assume ids: "b_ids = Some (JArr ids) \<and> ids \<noteq> []"
  have member: "(\<exists>i \<in> set ids. strict_eq i (JStr s)) \<longleftrightarrow> JStr s \<in> set ids" for s
    by (auto simp: strict_eq_JStr_right)
  have accepted: "bulk_delete isAdmin st b_ids =
      (respond 200 (RDeleted (length (feedback st)
          - length (filter (\<lambda>f. JStr (feedback_id f) \<notin> set ids) (feedback st)))))
        \<lparr>writeFeedback := Some (filter (\<lambda>f. JStr (feedback_id f) \<notin> set ids) (feedback st))\<rparr>"
    using assms ids by (simp add: bulk_delete_def Let_def member)
  show "http_status (bulk_delete isAdmin st b_ids) = 200"
    by (simp add: accepted)
  show "writeCategories (bulk_delete isAdmin st b_ids) = None"
    by (simp add: accepted)
  show "writeFeedback (bulk_delete isAdmin st b_ids)
      = Some (filter (\<lambda>f. JStr (feedback_id f) \<notin> set ids) (feedback st))"
    by (simp add: accepted)
  show "body (bulk_delete isAdmin st b_ids)
      = RDeleted (length (feedback st)
          - length (filter (\<lambda>f. JStr (feedback_id f) \<notin> set ids) (feedback st)))"
    by (simp add: accepted)
  have "length (filter (\<lambda>f. JStr (feedback_id f) \<in> set ids) (feedback st))
      + length (filter (\<lambda>f. JStr (feedback_id f) \<notin> set ids) (feedback st))
      = length (feedback st)"
    using sum_length_filter_compl [of "\<lambda>f. JStr (feedback_id f) \<in> set ids" "feedback st"]
    by simp
  then show "length (feedback st)
        - length (filter (\<lambda>f. JStr (feedback_id f) \<notin> set ids) (feedback st))
      = length (filter (\<lambda>f. JStr (feedback_id f) \<in> set ids) (feedback st))"
    by simp
qed

text \<open>Two listed ids, one of them unknown, and a number: one entry goes, the answer is 200.\<close>

theorem bulk_delete_removes_listed_ids_witness:
  "http_status (bulk_delete True test_state (Some (JArr [JStr ''f2'', JStr ''zz'', JNum 7]))) = 200
   \<and> writeFeedback (bulk_delete True test_state (Some (JArr [JStr ''f2'', JStr ''zz'', JNum 7])))
       = Some [entry1]
   \<and> body (bulk_delete True test_state (Some (JArr [JStr ''f2'', JStr ''zz'', JNum 7])))
       = RDeleted 1
   \<and> http_status (bulk_delete True test_state (Some (JStr ''f2''))) = 400
   \<and> http_status (bulk_delete True test_state (Some (JArr []))) = 400
   \<and> http_status (bulk_delete True test_state None) = 400"
proof -
  have no_array: "\<not> (\<exists>ids. Some (JStr ''f2'') = Some (JArr ids) \<and> ids \<noteq> [])"
    "\<not> (\<exists>ids. Some (JArr []) = Some (JArr ids) \<and> ids \<noteq> [])"
    "\<not> (\<exists>ids. None = Some (JArr ids) \<and> ids \<noteq> [])"
    by simp_all
  have listed: "Some (JArr [JStr ''f2'', JStr ''zz'', JNum 7])
        = Some (JArr [JStr ''f2'', JStr ''zz'', JNum 7])
      \<and> [JStr ''f2'', JStr ''zz'', JNum 7] \<noteq> []"
    by simp
  have kept: "filter (\<lambda>f. JStr (feedback_id f) \<notin> set [JStr ''f2'', JStr ''zz'', JNum 7])
      (feedback test_state) = [entry1]"
    by simp
  show ?thesis
    using bulk_delete_removes_listed_ids
        [where isAdmin = True and st = test_state and b_ids = "Some (JStr ''f2'')"]
      bulk_delete_removes_listed_ids
        [where isAdmin = True and st = test_state and b_ids = "Some (JArr [])"]
      bulk_delete_removes_listed_ids
        [where isAdmin = True and st = test_state and b_ids = None]
      bulk_delete_removes_listed_ids
        [where isAdmin = True and st = test_state
           and b_ids = "Some (JArr [JStr ''f2'', JStr ''zz'', JNum 7])"]
      no_array listed kept
    by simp
qed

lemma update_status_Some:
  assumes "update_status b_status e = Some e'"
  shows "(b_status = None \<and> e' = e)
       \<or> (\<exists>s \<in> set allowed. b_status = Some (JStr s) \<and> e' = e\<lparr>status := Some s\<rparr>)"
proof (cases b_status)
  case None
  with assms show ?thesis by (simp add: update_status_def)
next
  case (Some v)
  with assms obtain a where a: "a \<in> set allowed" "strict_eq (JStr a) v"
    by (auto simp: update_status_def split: if_splits)
  then have "v = JStr a" by (simp add: strict_eq_JStr_left)
  with assms Some a(1) show ?thesis
    by (auto simp: update_status_def split: if_splits)
qed

lemma update_category_Some:
  assumes "update_category cats b_category e = Some e'"
  shows "(b_category = None \<and> e' = e)
       \<or> (\<exists>k \<in> set cats. b_category = Some (JStr (id' k)) \<and> e' = e\<lparr>category := Some (id' k)\<rparr>)"
proof (cases b_category)
  case None
  with assms show ?thesis by (simp add: update_category_def)
next
  case (Some v)
  with assms obtain k where k: "k \<in> set cats" "strict_eq (JStr (id' k)) v"
    by (auto simp: update_category_def split: if_splits)
  then have "v = JStr (id' k)" by (simp add: strict_eq_JStr_left)
  with assms Some k(1) show ?thesis
    by (auto simp: update_category_def split: if_splits)
qed

lemma update_admin_note_cases:
  "(b_admin_note = None \<and> update_admin_note rt b_admin_note e = e)
   \<or> (\<exists>n. b_admin_note = Some n
          \<and> update_admin_note rt b_admin_note e = e\<lparr>admin_note := Some (toString_json rt n)\<rparr>)"
  by (cases b_admin_note) (simp_all add: update_admin_note_def)

text \<open>What a successful update has done, in terms of the three field updates.\<close>

lemma put_feedback_200:
  assumes "http_status (put_feedback rt isAdmin st p_id bs bn bc) = 200"
  shows "\<exists>idx e1 e3. isAdmin
      \<and> findIndex (\<lambda>f. feedback_id f = p_id) (feedback st) = Some idx
      \<and> update_status bs (feedback st ! idx) = Some e1
      \<and> update_category (categories st) bc (update_admin_note rt bn e1) = Some e3
      \<and> put_feedback rt isAdmin st p_id bs bn bc
          = (respond 200 (RFeedback e3))
              \<lparr>writeFeedback := Some (list_update (feedback st) idx e3)\<rparr>"
  using assms by (auto simp: put_feedback_def split: if_splits option.splits)

text \<open>
  Claim C7.  A successful \<^verbatim>\<open>PUT /api/admin/feedback/:id\<close> writes back the collection
  it read with one entry replaced, the first whose \<^verbatim>\<open>feedback_id\<close> is the given id.
  Every other entry is unchanged; in the replaced entry \<^verbatim>\<open>feedback_id\<close>, \<^verbatim>\<open>rating\<close>,
  \<^verbatim>\<open>comment\<close>, \<^verbatim>\<open>timestamp\<close> and \<^verbatim>\<open>hash\<close> are unchanged, and each of \<^verbatim>\<open>status\<close>,
  \<^verbatim>\<open>admin_note\<close> and \<^verbatim>\<open>category\<close> is unchanged unless the body supplied it.  The
  categories file is not written.
\<close>

theorem put_feedback_frame:
  assumes "http_status (put_feedback rt isAdmin st p_id b_status b_admin_note b_category) = 200"
  shows "\<exists>idx e'.
        idx < length (feedback st)
      \<and> feedback_id (feedback st ! idx) = p_id
      \<and> (\<forall>j < idx. feedback_id (feedback st ! j) \<noteq> p_id)
      \<and> writeFeedback (put_feedback rt isAdmin st p_id b_status b_admin_note b_category)
          = Some (list_update (feedback st) idx e')
      \<and> writeCategories (put_feedback rt isAdmin st p_id b_status b_admin_note b_category) = None
      \<and> length (list_update (feedback st) idx e') = length (feedback st)
      \<and> (\<forall>j < length (feedback st). j \<noteq> idx \<longrightarrow>
            list_update (feedback st) idx e' ! j = feedback st ! j)
      \<and> feedback_id e' = feedback_id (feedback st ! idx)
      \<and> rating e' = rating (feedback st ! idx)
      \<and> comment e' = comment (feedback st ! idx)
      \<and> timestamp e' = timestamp (feedback st ! idx)
      \<and> hash e' = hash (feedback st ! idx)
      \<and> (b_status = None \<longrightarrow> status e' = status (feedback st ! idx))
      \<and> (b_admin_note = None \<longrightarrow> admin_note e' = admin_note (feedback st ! idx))
      \<and> (b_category = None \<longrightarrow> category e' = category (feedback st ! idx))"
proof -
  from put_feedback_200 [OF assms] obtain idx e1 e3 where
    idx: "findIndex (\<lambda>f. feedback_id f = p_id) (feedback st) = Some idx" and
    e1: "update_status b_status (feedback st ! idx) = Some e1" and
    e3: "update_category (categories st) b_category (update_admin_note rt b_admin_note e1) = Some e3" and
    result: "put_feedback rt isAdmin st p_id b_status b_admin_note b_category
          = (respond 200 (RFeedback e3))
              \<lparr>writeFeedback := Some (list_update (feedback st) idx e3)\<rparr>"
    by blast
  let ?e = "feedback st ! idx"
  let ?e2 = "update_admin_note rt b_admin_note e1"
  from findIndex_Some [OF idx] have first:
    "idx < length (feedback st)" "feedback_id ?e = p_id"
    "\<forall>j < idx. feedback_id (feedback st ! j) \<noteq> p_id"
    by simp_all
  have step1: "feedback_id e1 = feedback_id ?e \<and> rating e1 = rating ?e \<and> comment e1 = comment ?e
      \<and> timestamp e1 = timestamp ?e \<and> hash e1 = hash ?e
      \<and> admin_note e1 = admin_note ?e \<and> category e1 = category ?e
      \<and> (b_status = None \<longrightarrow> status e1 = status ?e)"
    using update_status_Some [OF e1] by auto
  have step2: "feedback_id ?e2 = feedback_id e1 \<and> rating ?e2 = rating e1 \<and> comment ?e2 = comment e1
      \<and> timestamp ?e2 = timestamp e1 \<and> hash ?e2 = hash e1
      \<and> status ?e2 = status e1 \<and> category ?e2 = category e1
      \<and> (b_admin_note = None \<longrightarrow> admin_note ?e2 = admin_note e1)"
    using update_admin_note_cases [of b_admin_note rt e1] by auto
  have step3: "feedback_id e3 = feedback_id ?e2 \<and> rating e3 = rating ?e2 \<and> comment e3 = comment ?e2
      \<and> timestamp e3 = timestamp ?e2 \<and> hash e3 = hash ?e2
      \<and> status e3 = status ?e2 \<and> admin_note e3 = admin_note ?e2
      \<and> (b_category = None \<longrightarrow> category e3 = category ?e2)"
    using update_category_Some [OF e3] by auto
  have fields: "feedback_id e3 = feedback_id ?e \<and> rating e3 = rating ?e \<and> comment e3 = comment ?e
      \<and> timestamp e3 = timestamp ?e \<and> hash e3 = hash ?e
      \<and> (b_status = None \<longrightarrow> status e3 = status ?e)
      \<and> (b_admin_note = None \<longrightarrow> admin_note e3 = admin_note ?e)
      \<and> (b_category = None \<longrightarrow> category e3 = category ?e)"
    using step1 step2 step3 by simp
  have others: "\<forall>j < length (feedback st). j \<noteq> idx \<longrightarrow>
      list_update (feedback st) idx e3 ! j = feedback st ! j"
    by simp
  have written: "writeFeedback (put_feedback rt isAdmin st p_id b_status b_admin_note b_category)
      = Some (list_update (feedback st) idx e3)"
    "writeCategories (put_feedback rt isAdmin st p_id b_status b_admin_note b_category) = None"
    by (simp_all add: result)
  show ?thesis
    using first written others fields by (intro exI [of _ idx] exI [of _ e3]) simp
qed

text \<open>Only a note is supplied: the second entry gets it, and nothing else changes.\<close>

theorem put_feedback_frame_witness:
  "http_status (put_feedback test_runtime True test_state ''f2'' None (Some (JStr ''Done'')) None) = 200
   \<and> writeFeedback (put_feedback test_runtime True test_state ''f2'' None (Some (JStr ''Done'')) None)
       = Some [entry1, entry2\<lparr>admin_note := Some ''Done''\<rparr>]
   \<and> (\<exists>idx e'. idx < length (feedback test_state)
        \<and> writeFeedback (put_feedback test_runtime True test_state ''f2'' None (Some (JStr ''Done'')) None)
             = Some (list_update (feedback test_state) idx e')
        \<and> status e' = status (feedback test_state ! idx)
        \<and> category e' = category (feedback test_state ! idx)
        \<and> comment e' = comment (feedback test_state ! idx))"
proof -
  have ok: "http_status
      (put_feedback test_runtime True test_state ''f2'' None (Some (JStr ''Done'')) None) = 200"
    by (simp add: put_feedback_def update_status_def update_admin_note_def update_category_def)
  have written: "writeFeedback
      (put_feedback test_runtime True test_state ''f2'' None (Some (JStr ''Done'')) None)
       = Some [entry1, entry2\<lparr>admin_note := Some ''Done''\<rparr>]"
    by (simp add: put_feedback_def update_status_def update_admin_note_def update_category_def)
  from put_feedback_frame [OF ok] have "\<exists>idx e'. idx < length (feedback test_state)
        \<and> writeFeedback (put_feedback test_runtime True test_state ''f2'' None (Some (JStr ''Done'')) None)
             = Some (list_update (feedback test_state) idx e')
        \<and> status e' = status (feedback test_state ! idx)
        \<and> category e' = category (feedback test_state ! idx)
        \<and> comment e' = comment (feedback test_state ! idx)"
    by blast
  with ok written show ?thesis by blast
qed

section \<open>Invariants of the reachable states\<close>

lemma find_byName_Some:
  "find_byName q cats = Returned (Some c) \<Longrightarrow>
     c \<in> set cats \<and> (\<exists>n. name c = JStr n \<and> toLowerCase n = q)"
  by (induction cats) (auto split: json.splits if_splits)

lemma resolve_category_Some:
  assumes "resolve_category rt cats v = Returned (Some cid)"
  shows "\<exists>c \<in> set cats. id' c = cid"
proof (cases "find (\<lambda>c. strict_eq (JStr (id' c)) v) cats")
  case (Some byId)
  then have "byId \<in> set cats"
    by (auto simp: find_Some_iff)
  with assms Some show ?thesis
    by (auto simp: resolve_category_def)
next
  case None
  with assms obtain c where "find_byName (toLowerCase (toString_json rt v)) cats = Returned (Some c)"
    "id' c = cid"
    by (auto simp: resolve_category_def split: attempt.splits option.splits)
  with find_byName_Some show ?thesis by blast
qed

text \<open>The entry that an accepted submission appends.\<close>

lemma post_feedback_written:
  assumes "writeFeedback (post_feedback rt ev st ua c r m) = Some fb'"
  shows "\<exists>e. fb' = feedback st @ [e] \<and> status e = Some ''open'' \<and> admin_note e = Some []
      \<and> (\<exists>k \<in> set (categories st). category e = Some (id' k))
      \<and> hash e = hashIdentifier rt ua (clock_hash ev)
      \<and> http_status (post_feedback rt ev st ua c r m) = 201"
proof -
  from assms obtain cat cid where "resolve_category rt (categories st) cat = Returned (Some cid)"
    and fb': "fb' = feedback st @
       [\<lparr>feedback_id = randomUUID ev, category = Some cid,
         rating = stored_rating rt (case r of Some x \<Rightarrow> x),
         comment = (case m of Some x \<Rightarrow> x), status = Some ''open'', admin_note = Some [],
         timestamp = toISOString rt (clock_date ev),
         hash = hashIdentifier rt ua (clock_hash ev)\<rparr>]"
    and "http_status (post_feedback rt ev st ua c r m) = 201"
    by (auto simp: post_feedback_def Let_def split: option.splits attempt.splits if_splits)
  with resolve_category_Some show ?thesis by fastforce
qed

lemma put_feedback_written:
  assumes "writeFeedback (put_feedback rt isAdmin st i s n c) = Some fb'"
  shows "\<exists>idx e. idx < length (feedback st) \<and> fb' = list_update (feedback st) idx e
      \<and> (status e = status (feedback st ! idx) \<or> (\<exists>a \<in> set allowed. status e = Some a))
      \<and> (category e = category (feedback st ! idx) \<or> (\<exists>k \<in> set (categories st). category e = Some (id' k)))"
proof -
  from assms have "http_status (put_feedback rt isAdmin st i s n c) = 200"
    by (auto simp: put_feedback_def split: if_splits option.splits)
  from put_feedback_200 [OF this] obtain idx e1 e3 where
    idx: "findIndex (\<lambda>f. feedback_id f = i) (feedback st) = Some idx" and
    e1: "update_status s (feedback st ! idx) = Some e1" and
    e3: "update_category (categories st) c (update_admin_note rt n e1) = Some e3" and
    result: "put_feedback rt isAdmin st i s n c
          = (respond 200 (RFeedback e3))\<lparr>writeFeedback := Some (list_update (feedback st) idx e3)\<rparr>"
    by blast
  let ?e = "feedback st ! idx"
  let ?e2 = "update_admin_note rt n e1"
  have s1: "(status e1 = status ?e \<or> (\<exists>a \<in> set allowed. status e1 = Some a))
      \<and> category e1 = category ?e"
    using update_status_Some [OF e1] by auto
  have s2: "status ?e2 = status e1 \<and> category ?e2 = category e1"
    using update_admin_note_cases [of n rt e1] by auto
  have s3: "status e3 = status ?e2
      \<and> (category e3 = category ?e2 \<or> (\<exists>k \<in> set (categories st). category e3 = Some (id' k)))"
    using update_category_Some [OF e3] by auto
  from assms result have "fb' = list_update (feedback st) idx e3"
    by simp
  moreover from findIndex_Some [OF idx] have "idx < length (feedback st)"
    by simp
  ultimately show ?thesis
    using s1 s2 s3 by (intro exI [of _ idx] exI [of _ e3]) auto
qed

lemma delete_feedback_written:
  "writeFeedback (delete_feedback isAdmin st i) = Some fb' \<Longrightarrow> set fb' \<subseteq> set (feedback st)"
  by (auto simp: delete_feedback_def split: if_splits)

lemma bulk_delete_written:
  "writeFeedback (bulk_delete isAdmin st ids) = Some fb' \<Longrightarrow> set fb' \<subseteq> set (feedback st)"
  by (auto simp: bulk_delete_def Let_def split: if_splits option.splits json.splits)

text \<open>Every write of the feedback file is of one of three kinds.\<close>

lemma handle_feedback_written:
  assumes "writeFeedback (handle rt ev isAdmin st req) = Some fb'"
  shows "writeCategories (handle rt ev isAdmin st req) = None
     \<and> ((\<exists>e. fb' = feedback st @ [e] \<and> status e = Some ''open''
             \<and> (\<exists>k \<in> set (categories st). category e = Some (id' k)))
      \<or> (\<exists>idx e. idx < length (feedback st) \<and> fb' = list_update (feedback st) idx e
             \<and> (status e = status (feedback st ! idx) \<or> (\<exists>a \<in> set allowed. status e = Some a))
             \<and> (category e = category (feedback st ! idx)
                  \<or> (\<exists>k \<in> set (categories st). category e = Some (id' k))))
      \<or> set fb' \<subseteq> set (feedback st))"
proof (cases req)
  case (PostFeedback ua c r m)
  with assms post_feedback_written [of rt ev st ua c r m fb'] show ?thesis
    by (auto simp: post_feedback_writes)
next
  case (PutFeedback i s n c)
  with assms put_feedback_written [of rt isAdmin st i s n c fb'] show ?thesis
    by (simp add: put_feedback_writes)
next
  case (DeleteFeedback i)
  with assms delete_feedback_written [of isAdmin st i fb'] show ?thesis
    by (simp add: delete_feedback_writes)
next
  case (BulkDelete ids)
  with assms bulk_delete_written [of isAdmin st ids fb'] show ?thesis
    by (simp add: bulk_delete_writes)
qed (use assms in \<open>simp_all add: read_only_writes post_category_writes put_category_writes
      delete_category_writes\<close>)

lemma put_category_written:
  assumes "writeCategories (put_category isAdmin st i n d) = Some cs'"
  shows "\<exists>idx c2. findIndex (\<lambda>c. id' c = i) (categories st) = Some idx
      \<and> id' c2 = id' (categories st ! idx) \<and> cs' = list_update (categories st) idx c2"
proof -
  from assms have admin: "isAdmin"
    by (auto simp: put_category_def split: if_splits)
  from assms admin obtain idx where idx: "findIndex (\<lambda>c. id' c = i) (categories st) = Some idx"
    by (cases "findIndex (\<lambda>c. id' c = i) (categories st)") (auto simp: put_category_def)
  let ?c1 = "if truthy n then (categories st ! idx)\<lparr>name := or_default n JNull\<rparr>
             else categories st ! idx"
  let ?c2 = "case d of None \<Rightarrow> ?c1 | Some x \<Rightarrow> ?c1\<lparr>description := x\<rparr>"
  from assms admin idx have "cs' = list_update (categories st) idx ?c2"
    by (simp add: put_category_def Let_def)
  moreover have "id' ?c2 = id' (categories st ! idx)"
    by (simp split: option.splits)
  ultimately show ?thesis
    using idx by blast
qed

text \<open>Every write of the categories file keeps the ids that some entry refers to.\<close>

lemma handle_categories_written:
  assumes "writeCategories (handle rt ev isAdmin st req) = Some cs'"
  shows "writeFeedback (handle rt ev isAdmin st req) = None
     \<and> (\<forall>f \<in> set (feedback st). (\<exists>k \<in> set (categories st). category f = Some (id' k))
            \<longrightarrow> (\<exists>k \<in> set cs'. category f = Some (id' k)))"
proof (cases req)
  case (PostCategory n d)
  with assms show ?thesis
    by (auto simp: post_category_def Let_def split: if_splits)
next
  case (PutCategory i n d)
  with assms put_category_written [of isAdmin st i n d cs'] obtain idx c2 where
    idx: "findIndex (\<lambda>c. id' c = i) (categories st) = Some idx"
    and c2: "id' c2 = id' (categories st ! idx)"
    and cs': "cs' = list_update (categories st) idx c2"
    by auto
  from findIndex_Some [OF idx] have bound: "idx < length (categories st)"
    by simp
  have "\<exists>k \<in> set cs'. id' k = id' c" if "c \<in> set (categories st)" for c
  proof -
    from that obtain j where j: "j < length (categories st)" "categories st ! j = c"
      by (auto simp: in_set_conv_nth)
    show ?thesis
    proof (cases "j = idx")
      case True
      with j c2 bound cs' have "c2 \<in> set cs'" "id' c2 = id' c"
        by (auto simp: set_update_memI)
      then show ?thesis by blast
    next
      case False
      with j cs' have "cs' ! j = c" "j < length cs'"
        by simp_all
      then have "c \<in> set cs'"
        by (auto simp: in_set_conv_nth)
      then show ?thesis by blast
    qed
  qed
  moreover from PutCategory have "writeFeedback (handle rt ev isAdmin st req) = None"
    by (simp add: put_category_writes)
  ultimately show ?thesis by metis
next
  case (DeleteCategory i)
  with assms have unused: "\<not> (\<exists>f \<in> set (feedback st). category f = Some i)"
    and cs': "cs' = filter (\<lambda>c. id' c \<noteq> i) (categories st)"
    by (auto simp: delete_category_def split: if_splits)
  have "\<exists>k \<in> set cs'. category f = Some (id' k)"
    if "f \<in> set (feedback st)" "k \<in> set (categories st)" "category f = Some (id' k)" for f k
  proof -
    from that(1,3) unused have "id' k \<noteq> i"
      by auto
    with that(2,3) cs' show ?thesis
      by auto
  qed
  moreover from DeleteCategory have "writeFeedback (handle rt ev isAdmin st req) = None"
    by (simp add: delete_category_writes)
  ultimately show ?thesis by blast
qed (use assms in \<open>simp_all add: read_only_writes post_feedback_writes put_feedback_writes
      delete_feedback_writes bulk_delete_writes\<close>)

lemma normalize_entry_fields:
  "status (fst (normalize_entry ids es f))
     = (if status f = None \<or> status f = Some [] then Some ''open'' else status f)"
  "category f = Some s \<Longrightarrow> s \<in> set ids \<Longrightarrow>
     category (fst (normalize_entry ids es f)) = Some s"
  by (auto simp: normalize_entry_def normalize_category_def normalize_status_def
      normalize_admin_note_def split: option.splits)

text \<open>The entries after a restart are the normalised entries, or the same as before.\<close>

lemma restart_categories: "categories (restart st) = categories st"
  by (simp add: restart_def split: option.splits)

lemma restart_feedback:
  assumes "f' \<in> set (feedback (restart st))"
  shows "f' \<in> set (feedback st)
     \<or> (\<exists>es. \<exists>f \<in> set (feedback st).
           f' = fst (normalize_entry (map id' (categories st)) es f))"
proof (cases "normalizeData st")
  case None
  with assms show ?thesis
    by (simp add: restart_def)
next
  case (Some fb)
  then obtain es where "fb = map fst (map (normalize_entry (map id' (categories st)) es) (feedback st))"
    by (auto simp: normalizeData_def Let_def split: attempt.splits if_splits)
  moreover from assms Some have "f' \<in> set fb"
    by (simp add: restart_def)
  ultimately show ?thesis
    by auto
qed

lemma reachable_status:
  assumes "reachable rt st"
  shows "\<forall>f \<in> set (feedback st). \<exists>a \<in> set allowed. status f = Some a"
  using assms
proof (induction rule: reachable.induct)
  case start
  show ?case by (simp add: initial_state_def)
next
  case (request st ev isAdmin req)
  show ?case
  proof (cases "writeFeedback (handle rt ev isAdmin st req)")
    case None
    with request.IH show ?thesis by (simp add: commit_def)
  next
    case (Some fb')
    have fb: "feedback (commit st (handle rt ev isAdmin st req)) = fb'"
      using Some by (simp add: commit_def)
    from handle_feedback_written [OF Some] consider
      (post) e where "fb' = feedback st @ [e]" "status e = Some ''open''"
    | (put) idx e where "idx < length (feedback st)" "fb' = list_update (feedback st) idx e"
        "status e = status (feedback st ! idx) \<or> (\<exists>a \<in> set allowed. status e = Some a)"
    | (delete) "set fb' \<subseteq> set (feedback st)"
      by blast
    then have "\<forall>f \<in> set fb'. \<exists>a \<in> set allowed. status f = Some a"
    proof cases
      case post
      with request.IH show ?thesis by (auto simp: allowed_def)
    next
      case put
      have "\<exists>a \<in> set allowed. status f = Some a" if "f \<in> set fb'" for f
      proof -
        from that put(2) have "f = e \<or> f \<in> set (feedback st)"
          using set_update_subset_insert [of "feedback st" idx e] by auto
        moreover from put(1) have "feedback st ! idx \<in> set (feedback st)"
          by simp
        ultimately show ?thesis
          using put(3) request.IH by metis
      qed
      then show ?thesis by blast
    next
      case delete
      with request.IH show ?thesis by blast
    qed
    with fb show ?thesis by simp
  qed
next
  case (restarted st)
  show ?case
  proof
    fix f'
    assume "f' \<in> set (feedback (restart st))"
    from restart_feedback [OF this] restarted.IH
    show "\<exists>a \<in> set allowed. status f' = Some a"
      by (auto simp: normalize_entry_fields(1) allowed_def)
  qed
qed

lemma reachable_references:
  assumes "reachable rt st"
  shows "\<forall>f \<in> set (feedback st). \<exists>k \<in> set (categories st). category f = Some (id' k)"
  using assms
proof (induction rule: reachable.induct)
  case start
  show ?case by (simp add: initial_state_def)
next
  case (request st ev isAdmin req)
  let ?r = "handle rt ev isAdmin st req"
  show ?case
  proof (cases "writeFeedback ?r")
    case None
    note no_feedback = None
    show ?thesis
    proof (cases "writeCategories ?r")
      case None
      with no_feedback request.IH show ?thesis by (simp add: commit_def)
    next
      case (Some cs')
      from handle_categories_written [OF Some] request.IH
      have "\<forall>f \<in> set (feedback st). \<exists>k \<in> set cs'. category f = Some (id' k)"
        by blast
      with no_feedback Some show ?thesis by (simp add: commit_def)
    qed
  next
    case (Some fb')
    from handle_feedback_written [OF Some] have cats: "writeCategories ?r = None"
      by simp
    from handle_feedback_written [OF Some] consider
      (post) e where "fb' = feedback st @ [e]" "\<exists>k \<in> set (categories st). category e = Some (id' k)"
    | (put) idx e where "idx < length (feedback st)" "fb' = list_update (feedback st) idx e"
        "category e = category (feedback st ! idx) \<or> (\<exists>k \<in> set (categories st). category e = Some (id' k))"
    | (delete) "set fb' \<subseteq> set (feedback st)"
      by blast
    then have "\<forall>f \<in> set fb'. \<exists>k \<in> set (categories st). category f = Some (id' k)"
    proof cases
      case post
      with request.IH show ?thesis by auto
    next
      case put
      have "\<exists>k \<in> set (categories st). category f = Some (id' k)" if "f \<in> set fb'" for f
      proof -
        from that put(2) have "f = e \<or> f \<in> set (feedback st)"
          using set_update_subset_insert [of "feedback st" idx e] by auto
        moreover from put(1) have "feedback st ! idx \<in> set (feedback st)"
          by simp
        ultimately show ?thesis
          using put(3) request.IH by metis
      qed
      then show ?thesis by blast
    next
      case delete
      with request.IH show ?thesis by blast
    qed
    with Some cats show ?thesis by (simp add: commit_def)
  qed
next
  case (restarted st)
  show ?case
  proof
    fix f'
    assume "f' \<in> set (feedback (restart st))"
    from restart_feedback [OF this] consider
      (same) "f' \<in> set (feedback st)"
    | (normal) es f where "f \<in> set (feedback st)"
        "f' = fst (normalize_entry (map id' (categories st)) es f)"
      by blast
    then show "\<exists>k \<in> set (categories (restart st)). category f' = Some (id' k)"
    proof cases
      case same
      with restarted.IH show ?thesis
        by (simp add: restart_categories)
    next
      case normal
      with restarted.IH obtain k where k: "k \<in> set (categories st)" "category f = Some (id' k)"
        by blast
      then have "id' k \<in> set (map id' (categories st))"
        by simp
      from normalize_entry_fields(2) [OF k(2) this] normal(2) k(1) show ?thesis
        by (auto simp: restart_categories)
    qed
  qed
qed

subsection \<open>Evaluating the example submission\<close>

lemma parseInt_4: "parseInt rt (JNum 4) = Some 4"
  by (simp add: parseInt_def numberToString_def natToString.simps digitChar_def
      parseInt_string_def trimStart_def isWhiteSpace_def stripSign_def isDigitIn_def
      digitValue_def digitsValue_def)

lemma submit1_response:
  "handle test_runtime env1 isAdmin initial_state submit1 =
     \<lparr>http_status = 201, body = RSubmitted ''uuid-1'',
      writeFeedback = Some
        [\<lparr>feedback_id = ''uuid-1'', category = Some ''general'', rating = JNum 4,
          comment = JStr ''Great course'', status = Some ''open'', admin_note = Some [],
          timestamp = toISOString test_runtime 1700000000000,
          hash = hashIdentifier test_runtime (Some ''Mozilla/5.0'') 1700000000000\<rparr>],
      writeCategories = None\<rparr>"
  by (simp add: submit1_def post_feedback_def initial_state_def env1_def respond_def
      resolve_category_def stored_rating_def parseInt_4)

lemma state1_eq:
  "state1 =
     \<lparr>feedback =
        [\<lparr>feedback_id = ''uuid-1'', category = Some ''general'', rating = JNum 4,
          comment = JStr ''Great course'', status = Some ''open'', admin_note = Some [],
          timestamp = toISOString test_runtime 1700000000000,
          hash = hashIdentifier test_runtime (Some ''Mozilla/5.0'') 1700000000000\<rparr>],
      categories = categories initial_state\<rparr>"
  by (simp add: state1_def submit1_response commit_def)

lemma reachable_state1: "reachable test_runtime state1"
  unfolding state1_def by (rule reachable.request) (rule reachable.start)

section \<open>Claims about the reachable states\<close>

text \<open>
  Claim C6.  In every state reachable from the files created at start-up, by
  requests and restarts, the status of every feedback entry is one of \<^verbatim>\<open>open\<close>, \<^verbatim>\<open>in_progress\<close>, \<^verbatim>\<open>completed\<close>.
  An entry appended by \<^verbatim>\<open>POST /api/feedback\<close> has status \<^verbatim>\<open>open\<close>.  A
  \<^verbatim>\<open>PUT /api/admin/feedback/:id\<close> whose body supplies a status outside the three
  values writes nothing and answers with an error; for an administrator and an
  existing entry the answer is 400.
\<close>

theorem status_is_one_of_three:
  "(reachable rt st \<longrightarrow>
      (\<forall>f \<in> set (feedback st).
          status f \<in> {Some ''open'', Some ''in_progress'', Some ''completed''}))
   \<and> (\<forall>fb'. writeFeedback (post_feedback rt ev st_post ua c r m) = Some fb' \<longrightarrow>
          (\<exists>e. fb' = feedback st_post @ [e] \<and> status e = Some ''open''))
   \<and> (\<forall>v. b_status = Some v
            \<and> v \<notin> {JStr ''open'', JStr ''in_progress'', JStr ''completed''} \<longrightarrow>
          writeFeedback (put_feedback rt isAdmin st_put p_id b_status b_admin_note b_category) = None
          \<and> writeCategories (put_feedback rt isAdmin st_put p_id b_status b_admin_note b_category) = None
          \<and> http_status (put_feedback rt isAdmin st_put p_id b_status b_admin_note b_category)
               \<in> {400, 401, 404}
          \<and> (isAdmin \<and> (\<exists>f \<in> set (feedback st_put). feedback_id f = p_id) \<longrightarrow>
                http_status (put_feedback rt isAdmin st_put p_id b_status b_admin_note b_category)
                  = 400))"
proof (intro conjI impI allI)
  assume "reachable rt st"
  from reachable_status [OF this]
  show "\<forall>f \<in> set (feedback st).
      status f \<in> {Some ''open'', Some ''in_progress'', Some ''completed''}"
    by (auto simp: allowed_def)
next
  fix fb'
  assume "writeFeedback (post_feedback rt ev st_post ua c r m) = Some fb'"
  from post_feedback_written [OF this]
  show "\<exists>e. fb' = feedback st_post @ [e] \<and> status e = Some ''open''"
    by blast
next
  fix v
  assume v: "b_status = Some v \<and> v \<notin> {JStr ''open'', JStr ''in_progress'', JStr ''completed''}"
  let ?r = "put_feedback rt isAdmin st_put p_id b_status b_admin_note b_category"
  have refused: "update_status b_status e = None" for e
    using v by (auto simp: update_status_def allowed_def strict_eq_JStr_left)
  have code: "http_status ?r =
      (if \<not> isAdmin then 401
       else if findIndex (\<lambda>f. feedback_id f = p_id) (feedback st_put) = None then 404 else 400)"
    by (auto simp: put_feedback_def refused split: option.splits)
  show "http_status ?r \<in> {400, 401, 404}"
    by (simp add: code)
  then have "400 \<le> http_status ?r"
    by auto
  then show "writeFeedback ?r = None"
    by (simp add: put_feedback_writes)
  show "writeCategories ?r = None"
    by (simp add: put_feedback_writes)
  show "http_status ?r = 400" if "isAdmin \<and> (\<exists>f \<in> set (feedback st_put). feedback_id f = p_id)"
  proof -
    from that have "findIndex (\<lambda>f. feedback_id f = p_id) (feedback st_put) \<noteq> None"
      by (auto simp: findIndex_None)
    with that code show ?thesis
      by (simp split: if_splits)
  qed
qed

text \<open>
  The state after one submission is reachable and its entry is \<^verbatim>\<open>open\<close>; asking to
  set the status of that entry to \<^verbatim>\<open>done\<close> is refused with 400.
\<close>

theorem status_is_one_of_three_witness:
  "reachable test_runtime state1
   \<and> map status (feedback state1) = [Some ''open'']
   \<and> status ` set (feedback state1) \<subseteq> {Some ''open'', Some ''in_progress'', Some ''completed''}
   \<and> http_status (put_feedback test_runtime True state1 ''uuid-1'' (Some (JStr ''done'')) None None)
        = 400
   \<and> writeFeedback (put_feedback test_runtime True state1 ''uuid-1'' (Some (JStr ''done'')) None None)
        = None"
proof -
  have found: "True \<and> (\<exists>f \<in> set (feedback state1). feedback_id f = ''uuid-1'')"
    by (simp add: state1_eq)
  have outside: "Some (JStr ''done'') = Some (JStr ''done'')
      \<and> JStr ''done'' \<notin> {JStr ''open'', JStr ''in_progress'', JStr ''completed''}"
    by simp
  have entries: "map status (feedback state1) = [Some ''open'']"
    by (simp add: state1_eq)
  note claim = status_is_one_of_three
        [where rt = test_runtime and st = state1 and isAdmin = True and st_put = state1
           and p_id = "''uuid-1''" and b_status = "Some (JStr ''done'')"
           and b_admin_note = None and b_category = None]
  note invariant = claim [THEN conjunct1, THEN mp, OF reachable_state1]
  note refusal = claim [THEN conjunct2, THEN conjunct2, THEN spec, THEN mp, OF outside]
  from refusal found have "http_status
      (put_feedback test_runtime True state1 ''uuid-1'' (Some (JStr ''done'')) None None) = 400"
    by simp
  moreover from refusal have "writeFeedback
      (put_feedback test_runtime True state1 ''uuid-1'' (Some (JStr ''done'')) None None) = None"
    by simp
  moreover from invariant
  have "status ` set (feedback state1) \<subseteq> {Some ''open'', Some ''in_progress'', Some ''completed''}"
    by blast
  ultimately show ?thesis
    using reachable_state1 entries by simp
qed

text \<open>
  Claim C2.  In every state reachable by requests and restarts, for an administrator's
  \<^verbatim>\<open>DELETE /api/admin/categories/:id\<close>: if some feedback entry refers to the id, the
  answer is 400 and the categories file is not written, so the collection stays
  as it is; the file is written only when no entry refers to the id and a category
  has it, and then the categories with that id are removed; an id that no category
  has gives 404.  (The handler tests existence first; in a reachable state every
  entry refers to an existing category, so a referenced id exists.)
\<close>

theorem delete_category_guarded:
  assumes "reachable rt st"
  shows
    "((\<exists>f \<in> set (feedback st). category f = Some p_id) \<longrightarrow>
        http_status (delete_category True st p_id) = 400
        \<and> writeCategories (delete_category True st p_id) = None
        \<and> categories (commit st (delete_category True st p_id)) = categories st)
     \<and> (\<forall>cs'. writeCategories (delete_category True st p_id) = Some cs' \<longrightarrow>
          \<not> (\<exists>f \<in> set (feedback st). category f = Some p_id)
          \<and> (\<exists>c \<in> set (categories st). id' c = p_id)
          \<and> cs' = filter (\<lambda>c. id' c \<noteq> p_id) (categories st)
          \<and> http_status (delete_category True st p_id) = 200)
     \<and> (\<not> (\<exists>c \<in> set (categories st). id' c = p_id) \<longrightarrow>
          http_status (delete_category True st p_id) = 404
          \<and> writeCategories (delete_category True st p_id) = None)"
proof (intro conjI impI allI)
  assume used: "\<exists>f \<in> set (feedback st). category f = Some p_id"
  with reachable_references [OF assms] have "\<exists>c \<in> set (categories st). id' c = p_id"
    by fastforce
  with used have refused: "delete_category True st p_id
      = respond 400 (RError ''Cannot delete category in use by feedback'')"
    by (simp add: delete_category_def)
  show "http_status (delete_category True st p_id) = 400"
    by (simp add: refused)
  show "writeCategories (delete_category True st p_id) = None"
    by (simp add: refused)
  show "categories (commit st (delete_category True st p_id)) = categories st"
    by (simp add: refused commit_def)
next
  fix cs'
  assume written: "writeCategories (delete_category True st p_id) = Some cs'"
  then show "\<not> (\<exists>f \<in> set (feedback st). category f = Some p_id)"
    by (auto simp: delete_category_def split: if_splits)
  from written show "\<exists>c \<in> set (categories st). id' c = p_id"
    by (auto simp: delete_category_def split: if_splits)
  from written show "cs' = filter (\<lambda>c. id' c \<noteq> p_id) (categories st)"
    by (auto simp: delete_category_def split: if_splits)
  from written show "http_status (delete_category True st p_id) = 200"
    by (auto simp: delete_category_def split: if_splits)
next
  assume missing: "\<not> (\<exists>c \<in> set (categories st). id' c = p_id)"
  then have "delete_category True st p_id = respond 404 (RError ''Category not found'')"
    by (simp add: delete_category_def)
  then show "http_status (delete_category True st p_id) = 404"
    "writeCategories (delete_category True st p_id) = None"
    by simp_all
qed

text \<open>
  After one submission to \<^verbatim>\<open>general\<close>, deleting \<^verbatim>\<open>general\<close> is refused with 400 and
  deleting an unknown id gives 404; before the submission \<^verbatim>\<open>general\<close> is unused, and
  deleting it writes the empty collection.
\<close>

theorem delete_category_guarded_witness:
  "reachable test_runtime state1
   \<and> (\<exists>f \<in> set (feedback state1). category f = Some ''general'')
   \<and> http_status (delete_category True state1 ''general'') = 400
   \<and> categories (commit state1 (delete_category True state1 ''general'')) = categories state1
   \<and> http_status (delete_category True state1 ''ghost'') = 404
   \<and> writeCategories (delete_category True initial_state ''general'') = Some []
   \<and> \<not> (\<exists>f \<in> set (feedback initial_state). category f = Some ''general'')"
proof -
  have used: "\<exists>f \<in> set (feedback state1). category f = Some ''general''"
    by (simp add: state1_eq)
  have missing: "\<not> (\<exists>c \<in> set (categories state1). id' c = ''ghost'')"
    by (simp add: state1_eq initial_state_def)
  have written: "writeCategories (delete_category True initial_state ''general'') = Some []"
    by (simp add: delete_category_def initial_state_def)
  note refused = delete_category_guarded [OF reachable_state1, of "''general''",
      THEN conjunct1, THEN mp, OF used]
  note not_found = delete_category_guarded [OF reachable_state1, of "''ghost''",
      THEN conjunct2, THEN conjunct2, THEN mp, OF missing]
  note removed = delete_category_guarded [OF reachable.start [of test_runtime], of "''general''",
      THEN conjunct2, THEN conjunct1, THEN spec, THEN mp, OF written]
  from refused not_found removed used written reachable_state1 show ?thesis
    by simp
qed

section \<open>Resolving the category of a submission\<close>

lemma find_byName_strings:
  assumes "\<forall>c \<in> set cats. \<exists>n. name c = JStr n"
  shows "find_byName q cats
       = Returned (find (\<lambda>c. \<exists>n. name c = JStr n \<and> toLowerCase n = q) cats)"
  using assms by (induction cats) auto

lemma toNumber_length_string:
  "lessThan_js (toNumber rt (length_property (JStr m))) (Num 5) \<longleftrightarrow> length m < 5"
proof -
  have "(of_nat (length m) :: rat) < 5 \<longleftrightarrow> length m < 5"
    using of_nat_less_iff [of "length m" 5, where ?'a = rat] by simp
  then show ?thesis by simp
qed

text \<open>A submission whose rating is a number from 1 to 5 and whose comment is a
  string of at least five code units passes the field checks.\<close>

lemma post_feedback_valid_fields:
  assumes "1 \<le> r" "r \<le> 5" "5 \<le> length m" "s \<noteq> []"
  shows "post_feedback rt ev st ua (Some (JStr s)) (Some (JNum r)) (Some (JStr m)) =
     (case resolve_category rt (categories st) (JStr s) of
        Threw \<Rightarrow> internal_error
      | Returned None \<Rightarrow> respond 400 (RError ''Invalid category'')
      | Returned (Some categoryId) \<Rightarrow>
          if categoryId = [] then respond 400 (RError ''Invalid category'')
          else (respond 201 (RSubmitted (randomUUID ev)))
                 \<lparr>writeFeedback := Some (feedback st @
                    [\<lparr>feedback_id = randomUUID ev, category = Some categoryId,
                      rating = stored_rating rt (JNum r), comment = JStr m,
                      status = Some ''open'', admin_note = Some [],
                      timestamp = toISOString rt (clock_date ev),
                      hash = hashIdentifier rt ua (clock_hash ev)\<rparr>])\<rparr>)"
proof -
  from assms have "r \<noteq> 0" "m \<noteq> []" "\<not> r < 1" "\<not> 5 < r" "\<not> length m < 5"
    by auto
  then show ?thesis
    using assms(4)
    by (simp add: post_feedback_def toNumber_length_string Let_def
        split: attempt.splits option.splits)
qed

text \<open>
  Take a categories collection whose ids are non-empty and whose names are
  strings, and a submission with a valid rating and comment whose category
  field is a non-empty string \<open>s\<close>.  If \<open>s\<close> is the id of a category, the submission
  is accepted and the stored entry has category \<open>s\<close>.  Otherwise, if \<open>s\<close> equals the
  name of a category up to letter case, the submission is accepted and the stored
  entry has the id of such a category.  Otherwise it is rejected with 400.  What is
  stored is in every case the id of a category of the collection.
\<close>

lemma category_by_id_or_name:
  assumes ids: "\<forall>c \<in> set (categories st). id' c \<noteq> []"
    and names: "\<forall>c \<in> set (categories st). \<exists>n. name c = JStr n"
    and fields: "1 \<le> r" "r \<le> 5" "5 \<le> length m" "s \<noteq> []"
  shows
    "((\<exists>c \<in> set (categories st). id' c = s) \<longrightarrow>
        http_status (post_feedback rt ev st ua (Some (JStr s)) (Some (JNum r)) (Some (JStr m))) = 201
        \<and> (\<exists>e. writeFeedback (post_feedback rt ev st ua (Some (JStr s)) (Some (JNum r)) (Some (JStr m)))
                 = Some (feedback st @ [e])
              \<and> category e = Some s))
     \<and> (\<not> (\<exists>c \<in> set (categories st). id' c = s)
          \<and> (\<exists>c \<in> set (categories st). \<exists>n. name c = JStr n \<and> toLowerCase n = toLowerCase s) \<longrightarrow>
        http_status (post_feedback rt ev st ua (Some (JStr s)) (Some (JNum r)) (Some (JStr m))) = 201
        \<and> (\<exists>e c n. writeFeedback (post_feedback rt ev st ua (Some (JStr s)) (Some (JNum r)) (Some (JStr m)))
                 = Some (feedback st @ [e])
              \<and> c \<in> set (categories st) \<and> name c = JStr n \<and> toLowerCase n = toLowerCase s
              \<and> category e = Some (id' c)))
     \<and> (\<not> (\<exists>c \<in> set (categories st). id' c = s)
          \<and> \<not> (\<exists>c \<in> set (categories st). \<exists>n. name c = JStr n \<and> toLowerCase n = toLowerCase s) \<longrightarrow>
        http_status (post_feedback rt ev st ua (Some (JStr s)) (Some (JNum r)) (Some (JStr m))) = 400
        \<and> writeFeedback (post_feedback rt ev st ua (Some (JStr s)) (Some (JNum r)) (Some (JStr m))) = None)
     \<and> (\<forall>fb'. writeFeedback (post_feedback rt ev st ua (Some (JStr s)) (Some (JNum r)) (Some (JStr m)))
                 = Some fb' \<longrightarrow>
          (\<exists>e. fb' = feedback st @ [e] \<and> (\<exists>c \<in> set (categories st). category e = Some (id' c))))"
proof -
  let ?post = "post_feedback rt ev st ua (Some (JStr s)) (Some (JNum r)) (Some (JStr m))"
  let ?byId = "find (\<lambda>c. strict_eq (JStr (id' c)) (JStr s)) (categories st)"
  let ?byName = "find (\<lambda>c. \<exists>n. name c = JStr n \<and> toLowerCase n = toLowerCase s) (categories st)"
  note unfold = post_feedback_valid_fields [OF fields, of rt ev st ua]
  have resolve: "resolve_category rt (categories st) (JStr s) =
      (case ?byId of
         Some byId \<Rightarrow> Returned (Some (id' byId))
       | None \<Rightarrow> (case ?byName of None \<Rightarrow> Returned None
                  | Some byName \<Rightarrow> Returned (Some (id' byName))))"
    by (simp add: resolve_category_def find_byName_strings [OF names] split: option.splits)
  have by_id: "http_status ?post = 201
      \<and> (\<exists>e. writeFeedback ?post = Some (feedback st @ [e]) \<and> category e = Some s)"
    if "\<exists>c \<in> set (categories st). id' c = s"
  proof -
    from that obtain c where c: "?byId = Some c"
      by (cases ?byId) (auto simp: find_None_iff)
    then have "id' c = s"
      by (auto simp: find_Some_iff)
    with c fields(4) show ?thesis
      by (simp add: unfold resolve)
  qed
  have by_name: "http_status ?post = 201
      \<and> (\<exists>e c n. writeFeedback ?post = Some (feedback st @ [e])
            \<and> c \<in> set (categories st) \<and> name c = JStr n \<and> toLowerCase n = toLowerCase s
            \<and> category e = Some (id' c))"
    if "\<not> (\<exists>c \<in> set (categories st). id' c = s)
        \<and> (\<exists>c \<in> set (categories st). \<exists>n. name c = JStr n \<and> toLowerCase n = toLowerCase s)"
  proof -
    from that have none: "?byId = None"
      by (auto simp: find_None_iff)
    from that obtain c where c: "?byName = Some c"
      by (cases ?byName) (auto simp: find_None_iff)
    then obtain n where n: "c \<in> set (categories st)" "name c = JStr n"
        "toLowerCase n = toLowerCase s"
      by (auto simp: find_Some_iff)
    from n(1) ids have "id' c \<noteq> []"
      by simp
    with none c have "http_status ?post = 201"
      and "writeFeedback ?post = Some (feedback st @
          [\<lparr>feedback_id = randomUUID ev, category = Some (id' c),
            rating = stored_rating rt (JNum r), comment = JStr m,
            status = Some ''open'', admin_note = Some [],
            timestamp = toISOString rt (clock_date ev),
            hash = hashIdentifier rt ua (clock_hash ev)\<rparr>])"
      by (simp_all add: unfold resolve)
    with n show ?thesis
      by (metis FeedbackEntry.select_convs(2))
  qed
  have neither: "http_status ?post = 400 \<and> writeFeedback ?post = None"
    if "\<not> (\<exists>c \<in> set (categories st). id' c = s)
        \<and> \<not> (\<exists>c \<in> set (categories st). \<exists>n. name c = JStr n \<and> toLowerCase n = toLowerCase s)"
  proof -
    from that have "?byId = None" "?byName = None"
      by (auto simp: find_None_iff)
    then show ?thesis
      by (simp add: unfold resolve)
  qed
  have stored: "\<exists>e. fb' = feedback st @ [e] \<and> (\<exists>c \<in> set (categories st). category e = Some (id' c))"
    if "writeFeedback ?post = Some fb'" for fb'
    using post_feedback_written [OF that] by blast
  from by_id by_name neither stored show ?thesis
    by blast
qed

text \<open>
  Against the start-up categories, \<^verbatim>\<open>GENERAL\<close> is no id but matches the name
  \<^verbatim>\<open>General\<close>: the entry is stored under the id \<^verbatim>\<open>general\<close>; so is one submitted
  with the id itself.  \<^verbatim>\<open>Generbl\<close> matches neither and is rejected with 400.
\<close>

lemma category_by_id_or_name_example:
  "http_status (post_feedback test_runtime env1 initial_state None
      (Some (JStr ''GENERAL'')) (Some (JNum 4)) (Some (JStr ''Great course''))) = 201
   \<and> (\<exists>e. writeFeedback (post_feedback test_runtime env1 initial_state None
               (Some (JStr ''GENERAL'')) (Some (JNum 4)) (Some (JStr ''Great course'')))
             = Some [e]
          \<and> category e = Some ''general'')
   \<and> (\<exists>e. writeFeedback (post_feedback test_runtime env1 initial_state None
               (Some (JStr ''general'')) (Some (JNum 4)) (Some (JStr ''Great course'')))
             = Some [e]
          \<and> category e = Some ''general'')
   \<and> http_status (post_feedback test_runtime env1 initial_state None
      (Some (JStr ''Generbl'')) (Some (JNum 4)) (Some (JStr ''Great course''))) = 400"
proof -
  have ids: "\<forall>c \<in> set (categories initial_state). id' c \<noteq> []"
    and names: "\<forall>c \<in> set (categories initial_state). \<exists>n. name c = JStr n"
    by (simp_all add: initial_state_def)
  have fields: "(1 :: rat) \<le> 4" "(4 :: rat) \<le> 5" "5 \<le> length ''Great course''"
    "''GENERAL'' \<noteq> []" "''general'' \<noteq> []" "''Generbl'' \<noteq> []"
    by simp_all
  have no_match: "\<not> (\<exists>c \<in> set (categories initial_state). id' c = ''Generbl'')
      \<and> \<not> (\<exists>c \<in> set (categories initial_state). \<exists>n. name c = JStr n
            \<and> toLowerCase n = toLowerCase ''Generbl'')"
    by (simp add: initial_state_def toLowerCase_def lowerChar_def)
  note other = category_by_id_or_name [OF ids names fields(1,2,3,6),
      of test_runtime env1 None, THEN conjunct2, THEN conjunct2, THEN conjunct1, THEN mp,
      OF no_match]
  have by_name: "\<not> (\<exists>c \<in> set (categories initial_state). id' c = ''GENERAL'')
      \<and> (\<exists>c \<in> set (categories initial_state). \<exists>n. name c = JStr n
            \<and> toLowerCase n = toLowerCase ''GENERAL'')"
    by (simp add: initial_state_def toLowerCase_def lowerChar_def)
  have by_id: "\<exists>c \<in> set (categories initial_state). id' c = ''general''"
    by (simp add: initial_state_def)
  note upper = category_by_id_or_name [OF ids names fields(1,2,3,4),
      of test_runtime env1 None, THEN conjunct2, THEN conjunct1, THEN mp, OF by_name]
  note lower = category_by_id_or_name [OF ids names fields(1,2,3,5),
      of test_runtime env1 None, THEN conjunct1, THEN mp, OF by_id]
  have only: "c \<in> set (categories initial_state) \<Longrightarrow> id' c = ''general''" for c
    by (auto simp: initial_state_def)
  have empty: "feedback initial_state = []"
    by (simp add: initial_state_def)
  from upper only have "\<exists>e. writeFeedback (post_feedback test_runtime env1 initial_state None
               (Some (JStr ''GENERAL'')) (Some (JNum 4)) (Some (JStr ''Great course'')))
             = Some [e]
          \<and> category e = Some ''general''"
    unfolding empty by auto
  moreover from lower have "\<exists>e. writeFeedback (post_feedback test_runtime env1 initial_state None
               (Some (JStr ''general'')) (Some (JNum 4)) (Some (JStr ''Great course'')))
             = Some [e]
          \<and> category e = Some ''general''"
    unfolding empty by auto
  ultimately show ?thesis
    using upper other by blast
qed

subsection \<open>A category whose name is not a string\<close>

lemma state_other_eq:
  "state_other =
     \<lparr>feedback = [],
      categories =
        [\<lparr>id' = ''general'', name = JStr ''General'', description = JStr ''General feedback''\<rparr>,
         \<lparr>id' = ''uuid-1'', name = JNum 5, description = JStr []\<rparr>,
         \<lparr>id' = ''uuid-2'', name = JStr ''Other'', description = JStr []\<rparr>]\<rparr>"
  by (simp add: state_other_def state_numbered_def add_numbered_def add_other_def
      post_category_def commit_def initial_state_def env1_def env2_def respond_def Let_def)

lemma reachable_state_other: "reachable test_runtime state_other"
  unfolding state_other_def state_numbered_def
  by (intro reachable.request reachable.start)

lemma lower_other: "toLowerCase ''Other'' = ''other''" "toLowerCase ''General'' = ''general''"
  by (simp_all add: toLowerCase_def lowerChar_def)

text \<open>
  Claim C8 at a failing input.  The categories are \<^verbatim>\<open>General\<close>, one that an
  administrator named with the number 5, and \<^verbatim>\<open>Other\<close>, all three created through
  the server.  A valid submission that gives its category by the display name
  \<^verbatim>\<open>Other\<close> is not accepted: the search by name calls \<^verbatim>\<open>toLowerCase\<close> on the number
  before it reaches \<^verbatim>\<open>Other\<close>, which throws, and the answer is 500 with nothing
  stored.  The same submission with the id of \<^verbatim>\<open>Other\<close> is accepted and stored under
  that id.
\<close>

theorem name_lookup_throws_at_numbered_category:
  "reachable test_runtime state_other
   \<and> map name (categories state_other) = [JStr ''General'', JNum 5, JStr ''Other'']
   \<and> post_feedback rt ev state_other ua
        (Some (JStr ''Other'')) (Some (JNum 4)) (Some (JStr ''Great course''))
       = internal_error
   \<and> http_status (post_feedback rt ev state_other ua
        (Some (JStr ''uuid-2'')) (Some (JNum 4)) (Some (JStr ''Great course''))) = 201
   \<and> map_option (map category) (writeFeedback (post_feedback rt ev state_other ua
        (Some (JStr ''uuid-2'')) (Some (JNum 4)) (Some (JStr ''Great course''))))
       = Some [Some ''uuid-2'']"
proof -
  have fields: "(1 :: rat) \<le> 4" "(4 :: rat) \<le> 5" "5 \<le> length ''Great course''"
    "''Other'' \<noteq> []" "''uuid-2'' \<noteq> []"
    by simp_all
  have thrown: "resolve_category rt (categories state_other) (JStr ''Other'') = Threw"
    by (simp add: resolve_category_def state_other_eq lower_other)
  have found: "resolve_category rt (categories state_other) (JStr ''uuid-2'')
      = Returned (Some ''uuid-2'')"
    by (simp add: resolve_category_def state_other_eq)
  have by_name: "post_feedback rt ev state_other ua
        (Some (JStr ''Other'')) (Some (JNum 4)) (Some (JStr ''Great course'')) = internal_error"
    by (simp add: post_feedback_valid_fields [OF fields(1,2,3,4)] thrown)
  have by_id: "http_status (post_feedback rt ev state_other ua
        (Some (JStr ''uuid-2'')) (Some (JNum 4)) (Some (JStr ''Great course''))) = 201"
    "map_option (map category) (writeFeedback (post_feedback rt ev state_other ua
        (Some (JStr ''uuid-2'')) (Some (JNum 4)) (Some (JStr ''Great course''))))
       = Some [Some ''uuid-2'']"
    by (simp_all add: post_feedback_valid_fields [OF fields(1,2,3,5)] found)
       (simp_all add: state_other_eq)
  have names: "map name (categories state_other) = [JStr ''General'', JNum 5, JStr ''Other'']"
    by (simp add: state_other_eq)
  from reachable_state_other names by_name by_id show ?thesis
    by simp
qed

text \<open>The same submission by name, on the example runtime: 500, and no write.\<close>

theorem name_lookup_throws_at_numbered_category_witness:
  "http_status (post_feedback test_runtime env1 state_other (Some ''Mozilla/5.0'')
      (Some (JStr ''Other'')) (Some (JNum 4)) (Some (JStr ''Great course''))) = 500
   \<and> writeFeedback (post_feedback test_runtime env1 state_other (Some ''Mozilla/5.0'')
      (Some (JStr ''Other'')) (Some (JNum 4)) (Some (JStr ''Great course''))) = None
   \<and> map id' (categories state_other) = [''general'', ''uuid-1'', ''uuid-2'']"
proof -
  have "map id' (categories state_other) = [''general'', ''uuid-1'', ''uuid-2'']"
    by (simp add: state_other_eq)
  with name_lookup_throws_at_numbered_category
      [where rt = test_runtime and ev = env1 and ua = "Some ''Mozilla/5.0''"]
  show ?thesis
    by simp
qed

section \<open>The hash of a submission\<close>

lemma digitValue_digitChar: "d < 10 \<Longrightarrow> digitValue (digitChar d) = Some d"
proof -
  assume "d < 10"
  then have "d \<in> {0, 1, 2, 3, 4, 5, 6, 7, 8, 9}"
    by auto
  then show ?thesis
    by (auto simp: digitChar_def digitValue_def)
qed

lemma digitsValue_snoc:
  "digitsValue radix (ds @ [c])
     = digitsValue radix ds * radix + (case digitValue c of None \<Rightarrow> 0 | Some d \<Rightarrow> d)"
  by (simp add: digitsValue_def)

text \<open>Reading the decimal digits of a number gives the number back.\<close>

lemma digitsValue_natToString: "digitsValue 10 (natToString n) = n"
proof (induction n rule: natToString.induct)
  case (1 n)
  show ?case
  proof (cases "n < 10")
    case True
    then show ?thesis
      by (simp add: natToString.simps [of n] digitsValue_def digitValue_digitChar)
  next
    case False
    with "1.IH" have "digitsValue 10 (natToString (n div 10)) = n div 10"
      by simp
    with False show ?thesis
      by (simp add: natToString.simps [of n] digitsValue_snoc digitValue_digitChar)
  qed
qed

lemma natToString_inject: "natToString a = natToString b \<longleftrightarrow> a = b"
  by (metis digitsValue_natToString)

lemma hash_input_inject: "hash_input ua t1 = hash_input ua t2 \<longleftrightarrow> t1 = t2"
  by (simp add: hash_input_def natToString_inject)

text \<open>
  Claim C3, as the code has it.  The hash stored by an accepted submission is the
  SHA-256 digest of the user-agent (the empty string when the header is missing)
  followed by the decimal millisecond clock reading.  For one user-agent the
  digested texts of two submissions are equal exactly when the two clock readings
  are equal: two submissions of one client in the same millisecond get the same
  hash, and two at different milliseconds get different hashes unless SHA-256
  collides on the two texts.
\<close>

theorem hash_of_agent_and_clock:
  "(\<forall>fb'. writeFeedback (post_feedback rt ev st ua c r m) = Some fb' \<longrightarrow>
       (\<exists>e. fb' = feedback st @ [e]
           \<and> hash e = sha256 rt (hash_input ua (clock_hash ev))))
   \<and> (hash_input ua t1 = hash_input ua t2 \<longleftrightarrow> t1 = t2)
   \<and> (t1 = t2 \<longrightarrow> hashIdentifier rt ua t1 = hashIdentifier rt ua t2)
   \<and> (t1 \<noteq> t2 \<and> hashIdentifier rt ua t1 = hashIdentifier rt ua t2 \<longrightarrow>
        hash_input ua t1 \<noteq> hash_input ua t2
        \<and> sha256 rt (hash_input ua t1) = sha256 rt (hash_input ua t2))"
proof (intro conjI allI impI)
  fix fb'
  assume "writeFeedback (post_feedback rt ev st ua c r m) = Some fb'"
  from post_feedback_written [OF this]
  show "\<exists>e. fb' = feedback st @ [e] \<and> hash e = sha256 rt (hash_input ua (clock_hash ev))"
    by (auto simp: hashIdentifier_def)
next
  show "hash_input ua t1 = hash_input ua t2 \<longleftrightarrow> t1 = t2"
    by (rule hash_input_inject)
next
  assume "t1 = t2"
  then show "hashIdentifier rt ua t1 = hashIdentifier rt ua t2"
    by simp
next
  assume "t1 \<noteq> t2 \<and> hashIdentifier rt ua t1 = hashIdentifier rt ua t2"
  then show "hash_input ua t1 \<noteq> hash_input ua t2"
    by (simp add: hash_input_inject)
next
  assume "t1 \<noteq> t2 \<and> hashIdentifier rt ua t1 = hashIdentifier rt ua t2"
  then show "sha256 rt (hash_input ua t1) = sha256 rt (hash_input ua t2)"
    by (simp add: hashIdentifier_def)
qed

lemma natToString_clock: "natToString 1700000000000 = ''1700000000000''"
  by (simp add: natToString.simps digitChar_def)

lemma submit1_again:
  "handle test_runtime env2 isAdmin state1 submit1 =
     \<lparr>http_status = 201, body = RSubmitted ''uuid-2'',
      writeFeedback = Some (feedback state1 @
        [\<lparr>feedback_id = ''uuid-2'', category = Some ''general'', rating = JNum 4,
          comment = JStr ''Great course'', status = Some ''open'', admin_note = Some [],
          timestamp = toISOString test_runtime 1700000000000,
          hash = hashIdentifier test_runtime (Some ''Mozilla/5.0'') 1700000000000\<rparr>]),
      writeCategories = None\<rparr>"
  by (simp add: submit1_def post_feedback_def state1_eq initial_state_def env2_def respond_def
      resolve_category_def stored_rating_def parseInt_4)

text \<open>
  The first submission of the example: its stored hash is the digest of the
  user-agent followed by \<^verbatim>\<open>1700000000000\<close>, and a clock reading one millisecond
  later gives another text to digest.
\<close>

theorem hash_of_agent_and_clock_witness:
  "writeFeedback (post_feedback test_runtime env1 initial_state (Some ''Mozilla/5.0'')
      (Some (JStr ''general'')) (Some (JNum 4)) (Some (JStr ''Great course''))) = Some (feedback state1)
   \<and> map hash (feedback state1)
       = [sha256 test_runtime (hash_input (Some ''Mozilla/5.0'') 1700000000000)]
   \<and> hash_input (Some ''Mozilla/5.0'') 1700000000000 = ''Mozilla/5.01700000000000''
   \<and> hash_input (Some ''Mozilla/5.0'') 1700000000000
       \<noteq> hash_input (Some ''Mozilla/5.0'') 1700000000001"
proof -
  have written: "writeFeedback (post_feedback test_runtime env1 initial_state (Some ''Mozilla/5.0'')
      (Some (JStr ''general'')) (Some (JNum 4)) (Some (JStr ''Great course''))) = Some (feedback state1)"
    using submit1_response [of False] by (simp add: submit1_def state1_eq)
  note claim = hash_of_agent_and_clock [where rt = test_runtime and ev = env1
      and st = initial_state and ua = "Some ''Mozilla/5.0''" and c = "Some (JStr ''general'')"
      and r = "Some (JNum 4)" and m = "Some (JStr ''Great course'')"
      and ?t1.0 = 1700000000000 and ?t2.0 = 1700000000001]
  from claim [THEN conjunct1, THEN spec, THEN mp, OF written]
  have "map hash (feedback state1)
       = [sha256 test_runtime (hash_input (Some ''Mozilla/5.0'') 1700000000000)]"
    by (auto simp: initial_state_def env1_def)
  moreover from claim [THEN conjunct2, THEN conjunct1]
  have "hash_input (Some ''Mozilla/5.0'') 1700000000000
       \<noteq> hash_input (Some ''Mozilla/5.0'') 1700000000001"
    by simp
  moreover have "hash_input (Some ''Mozilla/5.0'') 1700000000000 = ''Mozilla/5.01700000000000''"
    by (simp add: hash_input_def natToString_clock)
  ultimately show ?thesis
    using written by simp
qed

text \<open>
  Claim C3 as stated fails: the same client submits twice while the clock shows
  the same millisecond.  Both submissions are accepted, the two entries have
  different ids and the same hash.
\<close>

theorem same_client_same_millisecond_counterexample:
  "http_status (handle test_runtime env1 False initial_state submit1) = 201
   \<and> http_status (handle test_runtime env2 False state1 submit1) = 201
   \<and> map feedback_id (feedback state2) = [''uuid-1'', ''uuid-2'']
   \<and> map hash (feedback state2)
       = [''sha256(Mozilla/5.01700000000000)'', ''sha256(Mozilla/5.01700000000000)'']"
proof -
  have digest: "hashIdentifier test_runtime (Some ''Mozilla/5.0'') 1700000000000
      = ''sha256(Mozilla/5.01700000000000)''"
    by (simp add: hashIdentifier_def hash_input_def natToString_clock test_runtime_def)
  have "feedback state2 = feedback state1 @
        [\<lparr>feedback_id = ''uuid-2'', category = Some ''general'', rating = JNum 4,
          comment = JStr ''Great course'', status = Some ''open'', admin_note = Some [],
          timestamp = toISOString test_runtime 1700000000000,
          hash = hashIdentifier test_runtime (Some ''Mozilla/5.0'') 1700000000000\<rparr>]"
    by (simp add: state2_def submit1_again commit_def)
  then have entries: "map feedback_id (feedback state2) = [''uuid-1'', ''uuid-2'']"
    "map hash (feedback state2)
       = [hashIdentifier test_runtime (Some ''Mozilla/5.0'') 1700000000000,
          hashIdentifier test_runtime (Some ''Mozilla/5.0'') 1700000000000]"
    by (simp_all add: state1_eq)
  show ?thesis
    by (simp add: entries digest submit1_response submit1_again)
qed

section \<open>Inputs on which the code departs from its documentation\<close>

lemma Number_abc: "StringToNumber ''abc'' = NaN"
  by (simp add: StringToNumber_def trim_def trimStart_def isWhiteSpace_def decimalLiteral_def
      stripSign_def isDigitIn_def digitValue_def)

lemma parseInt_abc: "parseInt_string ''abc'' = None"
  by (simp add: parseInt_string_def trimStart_def isWhiteSpace_def stripSign_def isDigitIn_def
      digitValue_def)

lemma Number_99_bottles: "StringToNumber ''99 bottles'' = NaN"
  by (simp add: StringToNumber_def trim_def trimStart_def isWhiteSpace_def decimalLiteral_def
      stripSign_def isDigitIn_def digitValue_def)

lemma parseInt_99_bottles: "parseInt_string ''99 bottles'' = Some 99"
  by (simp add: parseInt_string_def trimStart_def isWhiteSpace_def stripSign_def isDigitIn_def
      digitValue_def digitsValue_def)

text \<open>
  Claim C1 at a failing input.  The rating \<^verbatim>\<open>"abc"\<close> is neither below 1 nor above 5,
  because both comparisons are made with \<^verbatim>\<open>NaN\<close>: the submission is accepted with 201
  and the entry is stored with the rating \<^verbatim>\<open>parseInt("abc")\<close>, which is \<^verbatim>\<open>NaN\<close> and is
  written to the file as \<^verbatim>\<open>null\<close>.  The rating \<^verbatim>\<open>"99 bottles"\<close> is accepted in the
  same way and stored as 99.
\<close>

theorem rating_text_passes_validation:
  "post_feedback rt ev initial_state ua
      (Some (JStr ''general'')) (Some (JStr ''abc'')) (Some (JStr ''Great course''))
     = \<lparr>http_status = 201, body = RSubmitted (randomUUID ev),
        writeFeedback = Some
          [\<lparr>feedback_id = randomUUID ev, category = Some ''general'', rating = JNull,
            comment = JStr ''Great course'', status = Some ''open'', admin_note = Some [],
            timestamp = toISOString rt (clock_date ev),
            hash = hashIdentifier rt ua (clock_hash ev)\<rparr>],
        writeCategories = None\<rparr>
   \<and> post_feedback rt ev initial_state ua
      (Some (JStr ''general'')) (Some (JStr ''99 bottles'')) (Some (JStr ''Great course''))
     = \<lparr>http_status = 201, body = RSubmitted (randomUUID ev),
        writeFeedback = Some
          [\<lparr>feedback_id = randomUUID ev, category = Some ''general'', rating = JNum 99,
            comment = JStr ''Great course'', status = Some ''open'', admin_note = Some [],
            timestamp = toISOString rt (clock_date ev),
            hash = hashIdentifier rt ua (clock_hash ev)\<rparr>],
        writeCategories = None\<rparr>"
  by (simp add: post_feedback_def initial_state_def respond_def resolve_category_def
      stored_rating_def parseInt_def Number_abc parseInt_abc Number_99_bottles
      parseInt_99_bottles)

text \<open>The same, for the example client: the answer is 201 and the stored rating is \<^verbatim>\<open>null\<close>.\<close>

theorem rating_text_passes_validation_witness:
  "http_status (post_feedback test_runtime env1 initial_state (Some ''Mozilla/5.0'')
      (Some (JStr ''general'')) (Some (JStr ''abc'')) (Some (JStr ''Great course''))) = 201
   \<and> map_option (map rating) (writeFeedback (post_feedback test_runtime env1 initial_state
      (Some ''Mozilla/5.0'') (Some (JStr ''general'')) (Some (JStr ''abc''))
      (Some (JStr ''Great course'')))) = Some [JNull]
   \<and> map_option (map rating) (writeFeedback (post_feedback test_runtime env1 initial_state
      (Some ''Mozilla/5.0'') (Some (JStr ''general'')) (Some (JStr ''99 bottles''))
      (Some (JStr ''Great course'')))) = Some [JNum 99]"
  using rating_text_passes_validation [of test_runtime env1 "Some ''Mozilla/5.0''"]
  by simp

lemma words_constructor: "match_words (toLowerCase ''constructor'') = [''constructor'']"
  by (simp add: match_words_def toLowerCase_def lowerChar_def isWordChar_def)

lemma words_proto: "match_words (toLowerCase ''__proto__ works'') = [''__proto__'', ''works'']"
  by (simp add: match_words_def toLowerCase_def lowerChar_def isWordChar_def)

lemma not_an_index: "\<not> isArrayIndex ''constructor''" "\<not> isArrayIndex ''works''"
  by (simp_all add: isArrayIndex_def isDigitIn_def digitValue_def)

text \<open>
  Claim C5 at a failing input.  With the single comment \<^verbatim>\<open>constructor\<close> the word
  occurs once, and the count reported for it is not 1 but the string that \<^verbatim>\<open>+ 1\<close>
  makes of the inherited \<^verbatim>\<open>Object.prototype.constructor\<close>.  With the comment
  \<^verbatim>\<open>__proto__ works\<close> the word \<^verbatim>\<open>__proto__\<close> occurs once and is not listed at all.
\<close>

theorem inherited_property_spoils_count:
  "get_analytics rt True \<lparr>feedback = [entry3], categories = categories initial_state\<rparr>
     = respond 200 (RAnalytics [(''constructor'', TStr ''function Object() { [native code] }1'')])
   \<and> get_analytics rt True \<lparr>feedback = [entry4], categories = categories initial_state\<rparr>
     = respond 200 (RAnalytics [(''works'', TNum 1)])"
  by (simp add: get_analytics_def commonWords_def entry3_def entry4_def words_constructor
      words_proto bump_def assign_def plus_one_def inherited_def prototype_functions_def
      object_entries_def not_an_index)

text \<open>The same two requests on the example runtime.\<close>

theorem inherited_property_spoils_count_witness:
  "body (get_analytics test_runtime True
      \<lparr>feedback = [entry3], categories = categories initial_state\<rparr>)
     = RAnalytics [(''constructor'', TStr ''function Object() { [native code] }1'')]
   \<and> body (get_analytics test_runtime True
      \<lparr>feedback = [entry4], categories = categories initial_state\<rparr>)
     = RAnalytics [(''works'', TNum 1)]"
  using inherited_property_spoils_count [of test_runtime]
  by simp

section \<open>The filtered list of \<^verbatim>\<open>GET /api/admin/feedback\<close>\<close>

subsection \<open>The sort\<close>

lemma mset_insert_sorted: "mset (insert_sorted p x ys) = add_mset x (mset ys)"
  by (induction ys) auto

lemma mset_sort_js: "mset (sort_js p xs) = mset xs"
  by (induction xs) (auto simp: mset_insert_sorted)

lemma set_insert_sorted: "set (insert_sorted p x ys) = insert x (set ys)"
  by (induction ys) auto

text \<open>
  When the comparator is the comparison of a key, larger keys first, insertion
  keeps a list sorted by decreasing key.
\<close>

lemma sorted_insert_sorted:
  fixes k :: "'a \<Rightarrow> int"
  assumes "\<forall>y \<in> set ys. p x y \<longleftrightarrow> k x < k y"
    and "sorted_wrt (\<lambda>a b. k b \<le> k a) ys"
  shows "sorted_wrt (\<lambda>a b. k b \<le> k a) (insert_sorted p x ys)"
  using assms
proof (induction ys)
  case Nil
  then show ?case by simp
next
  case (Cons y ys)
  show ?case
  proof (cases "p x y")
    case True
    with Cons.prems have "k x < k y"
      by simp
    moreover from Cons have "sorted_wrt (\<lambda>a b. k b \<le> k a) (insert_sorted p x ys)"
      by simp
    ultimately show ?thesis
      using True Cons.prems(2) by (auto simp: set_insert_sorted)
  next
    case False
    with Cons.prems have "k y \<le> k x"
      by auto
    with False Cons.prems(2) show ?thesis
      by fastforce
  qed
qed

lemma sorted_sort_js:
  fixes k :: "'a \<Rightarrow> int"
  assumes "\<forall>x \<in> set xs. \<forall>y \<in> set xs. p x y \<longleftrightarrow> k x < k y"
  shows "sorted_wrt (\<lambda>a b. k b \<le> k a) (sort_js p xs)"
  using assms
proof (induction xs)
  case Nil
  then show ?case by simp
next
  case (Cons x xs)
  then have "sorted_wrt (\<lambda>a b. k b \<le> k a) (sort_js p xs)"
    by simp
  moreover from Cons.prems have "\<forall>y \<in> set (sort_js p xs). p x y \<longleftrightarrow> k x < k y"
    using mset_sort_js [of p xs] by (metis list.set_intros(1,2) set_mset_mset)
  ultimately show ?case
    by (simp add: sorted_insert_sorted)
qed

subsection \<open>The filters\<close>

lemma includes_str_sublist: "includes_str s q \<longleftrightarrow> sublist q s"
  by (induction s) (simp_all add: sublist_Cons_right)

lemma by_category_filter:
  "by_category q fs
     = filter (\<lambda>f. case q_category (effective q) of None \<Rightarrow> True | Some c \<Rightarrow> category f = Some c) fs"
  by (simp add: by_category_def effective_def active_def split: option.splits)

lemma by_rating_filter:
  "by_rating q fs
     = filter (\<lambda>f. case q_rating (effective q) of None \<Rightarrow> True
                   | Some r \<Rightarrow> rating_equals (rating f) (parseInt_string r)) fs"
  by (simp add: by_rating_def effective_def active_def split: option.splits)

lemma by_status_filter:
  "by_status q fs
     = filter (\<lambda>f. case q_status (effective q) of None \<Rightarrow> True
                   | Some s \<Rightarrow> status_or_open f = s) fs"
  by (simp add: by_status_def effective_def active_def split: option.splits)

lemma by_startDate_filter:
  "by_startDate rt q fs
     = filter (\<lambda>f. case q_startDate (effective q) of None \<Rightarrow> True
                   | Some d \<Rightarrow> date_ge (dateParse rt (timestamp f)) (dateParse rt d)) fs"
  by (simp add: by_startDate_def effective_def active_def split: option.splits)

lemma by_endDate_filter:
  "by_endDate rt q fs
     = filter (\<lambda>f. case q_endDate (effective q) of None \<Rightarrow> True
                   | Some d \<Rightarrow> date_le (dateParse rt (timestamp f)) (dateParse rt d)) fs"
  by (simp add: by_endDate_def effective_def active_def split: option.splits)

lemma filter_attempt_Returned:
  "\<forall>x \<in> set xs. p x = Returned (P x) \<Longrightarrow> filter_attempt p xs = Returned (filter P xs)"
  by (induction xs) auto

text \<open>On an entry whose comment is a string the search callback does not throw.\<close>

lemma search_callback_string:
  assumes "comment f = JStr t" "s \<noteq> []"
  shows "search_callback (toLowerCase s) f = Returned (mentions s f)"
proof -
  have "search_comment (toLowerCase s) (JStr t) = Returned (contains_ci t s)"
    using assms(2) by (auto simp: search_comment_def contains_ci_def includes_str_sublist
        toLowerCase_def)
  moreover have "search_note (toLowerCase s) (admin_note f)
      \<longleftrightarrow> (case admin_note f of Some n \<Rightarrow> contains_ci n s | None \<Rightarrow> False)"
    using assms(2) by (auto simp: search_note_def contains_ci_def includes_str_sublist
        toLowerCase_def split: option.splits)
  ultimately show ?thesis
    using assms(1) by (cases "contains_ci t s") (simp_all add: search_callback_def mentions_def)
qed

lemma by_search_filter:
  assumes "\<forall>f \<in> set fs. \<exists>t. comment f = JStr t"
  shows "by_search q fs
     = Returned (filter (\<lambda>f. case q_search (effective q) of None \<Rightarrow> True
                            | Some s \<Rightarrow> mentions s f) fs)"
proof (cases "q_search q")
  case None
  then show ?thesis
    by (simp add: by_search_def effective_def active_def)
next
  case (Some s)
  show ?thesis
  proof (cases "s = []")
    case True
    with Some show ?thesis
      by (simp add: by_search_def effective_def active_def)
  next
    case False
    with assms have "\<forall>f \<in> set fs. search_callback (toLowerCase s) f = Returned (mentions s f)"
      by (metis search_callback_string)
    from filter_attempt_Returned [OF this] Some False show ?thesis
      by (simp add: by_search_def effective_def active_def)
  qed
qed

text \<open>The six filters one after the other are the conjunction of the effective query.\<close>

lemma filters_compose:
  assumes "\<forall>f \<in> set fs. \<exists>t. comment f = JStr t"
  shows "by_search q (by_endDate rt q (by_startDate rt q (by_status q (by_rating q (by_category q fs)))))
     = Returned (filter (supplied_filters rt (effective q)) fs)"
proof -
  let ?five = "by_endDate rt q (by_startDate rt q (by_status q (by_rating q (by_category q fs))))"
  have "set ?five \<subseteq> set fs"
    by (auto simp: by_category_filter by_rating_filter by_status_filter by_startDate_filter
        by_endDate_filter)
  with assms have "\<forall>f \<in> set ?five. \<exists>t. comment f = JStr t"
    by blast
  from by_search_filter [OF this, of q] show ?thesis
    by (simp add: by_category_filter by_rating_filter by_status_filter by_startDate_filter
        by_endDate_filter supplied_filters_def conj_ac cong: filter_cong)
qed
text \<open>
  Claim C4, as the code has it.  For an administrator's session, a query whose
  parameters are each absent or a string, and a collection whose comments are
  strings and whose timestamps parse as dates: the answer is 200 with exactly the
  entries (each as often as it is stored) that satisfy the conjunction of the
  filters of the effective parameters, sorted by timestamp, newest first.  A
  parameter is effective when it is supplied and not empty and, for
  \<^verbatim>\<open>category\<close>, \<^verbatim>\<open>rating\<close> and \<^verbatim>\<open>status\<close>, not \<^verbatim>\<open>all\<close>.  The rating filter compares
  with \<^verbatim>\<open>parseInt\<close> of the parameter, and a date bound that does not parse matches no
  entry.
\<close>

theorem admin_feedback_selects_and_sorts:
  assumes "isAdmin"
    and comments: "\<forall>f \<in> set (feedback st). \<exists>t. comment f = JStr t"
    and dates: "\<forall>f \<in> set (feedback st). dateParse rt (timestamp f) \<noteq> None"
  shows "\<exists>ys. get_admin_feedback rt isAdmin st q = respond 200 (RFeedbackList ys)
      \<and> mset ys = mset (filter (supplied_filters rt (effective q)) (feedback st))
      \<and> sorted_wrt (\<lambda>a b. date_ge (dateParse rt (timestamp a)) (dateParse rt (timestamp b))) ys"
proof -
  let ?sel = "filter (supplied_filters rt (effective q)) (feedback st)"
  let ?ys = "sort_js (newest_first rt) ?sel"
  let ?k = "\<lambda>f. case dateParse rt (timestamp f) of None \<Rightarrow> 0 | Some t \<Rightarrow> t"
  have response: "get_admin_feedback rt isAdmin st q = respond 200 (RFeedbackList ?ys)"
    using assms(1) by (simp add: get_admin_feedback_def filters_compose [OF comments])
  have members: "mset ?ys = mset ?sel"
    by (rule mset_sort_js)
  have valid: "\<exists>t. dateParse rt (timestamp f) = Some t" if "f \<in> set ?sel" for f
    using that dates by auto
  have "newest_first rt x y \<longleftrightarrow> ?k x < ?k y" if "x \<in> set ?sel" "y \<in> set ?sel" for x y
    using valid [OF that(1)] valid [OF that(2)] by (auto simp: newest_first_def)
  then have by_key: "sorted_wrt (\<lambda>a b. ?k b \<le> ?k a) ?ys"
    by (intro sorted_sort_js) blast
  have convert: "date_ge (dateParse rt (timestamp a)) (dateParse rt (timestamp b))"
    if "a \<in> set ?ys" "b \<in> set ?ys" "?k b \<le> ?k a" for a b
  proof -
    from that(1,2) members have "a \<in> set ?sel" "b \<in> set ?sel"
      by (metis set_mset_mset)+
    then obtain ta tb where "dateParse rt (timestamp a) = Some ta"
        "dateParse rt (timestamp b) = Some tb"
      using valid by blast
    with that(3) show ?thesis
      by (simp add: date_ge_def)
  qed
  have "sorted_wrt
      (\<lambda>a b. date_ge (dateParse rt (timestamp a)) (dateParse rt (timestamp b))) ?ys"
    by (rule sorted_wrt_mono_rel [OF _ by_key]) (auto intro: convert)
  with response members show ?thesis
    by blast
qed

subsection \<open>Evaluating the two example queries\<close>

lemma test_dates:
  "dateParse test_runtime ''1000'' = Some 1000"
  "dateParse test_runtime ''1500'' = Some 1500"
  "dateParse test_runtime ''2000'' = Some 2000"
  by (simp_all add: test_runtime_def isDigitIn_def digitValue_def digitsValue_def)

lemma parseInt_2: "parseInt_string ''2'' = Some 2"
  by (simp add: parseInt_string_def trimStart_def isWhiteSpace_def stripSign_def isDigitIn_def
      digitValue_def digitsValue_def)

lemma entry_contents [simp]:
  "rating entry1 = JNum 4" "rating entry2 = JNum 2"
  "comment entry1 = JStr ''Great course''" "comment entry2 = JStr ''Too fast for me''"
  "admin_note entry1 = Some []" "admin_note entry2 = Some ''Slides updated''"
  by (simp_all add: entry1_def entry2_def)

lemma query_six_selects:
  "filter (supplied_filters test_runtime (effective query_six)) (feedback test_state) = [entry2]"
proof -
  have "mentions ''FAST'' entry2"
    by (simp add: mentions_def contains_ci_def includes_str_sublist [symmetric]
        toLowerCase_def lowerChar_def)
  then show ?thesis
    by (simp add: supplied_filters_def effective_def active_def query_six_def test_dates
        parseInt_2 rating_equals_def status_or_open_def date_ge_def date_le_def)
qed

text \<open>
  Six parameters at once: only the second entry has rating 2, and it also passes
  the other five filters; its timestamp is the end date itself.
\<close>

theorem admin_feedback_selects_and_sorts_witness:
  "get_admin_feedback test_runtime True test_state query_six = respond 200 (RFeedbackList [entry2])
   \<and> filter (supplied_filters test_runtime (effective query_six)) (feedback test_state) = [entry2]
   \<and> dateParse test_runtime (timestamp entry2) = dateParse test_runtime ''2000''"
proof -
  have comments: "\<forall>f \<in> set (feedback test_state). \<exists>t. comment f = JStr t"
    by simp
  have dates: "\<forall>f \<in> set (feedback test_state). dateParse test_runtime (timestamp f) \<noteq> None"
    by (simp add: test_dates)
  from admin_feedback_selects_and_sorts [OF TrueI comments dates, of query_six]
  obtain ys where ys: "get_admin_feedback test_runtime True test_state query_six
        = respond 200 (RFeedbackList ys)"
      "mset ys = mset (filter (supplied_filters test_runtime (effective query_six))
         (feedback test_state))"
    by blast
  from ys(2) [unfolded query_six_selects] have "ys = [entry2]"
    by simp
  with ys(1) query_six_selects show ?thesis
    by (simp add: test_dates)
qed

text \<open>
  Claim C4 as stated fails: the query supplies \<^verbatim>\<open>status=all\<close>.  No entry has the
  status \<^verbatim>\<open>all\<close>, so the stated filter selects nothing; the handler answers with
  both entries.
\<close>

theorem status_all_selects_everything_counterexample:
  "get_admin_feedback test_runtime True test_state query_all
     = respond 200 (RFeedbackList [entry2, entry1])
   \<and> filter (supplied_filters test_runtime query_all) (feedback test_state) = []"
proof -
  have "newest_first test_runtime entry1 entry2"
    by (simp add: newest_first_def test_dates)
  then have "get_admin_feedback test_runtime True test_state query_all
     = respond 200 (RFeedbackList [entry2, entry1])"
    by (simp add: get_admin_feedback_def by_category_def by_rating_def by_status_def
        by_startDate_def by_endDate_def by_search_def query_all_def)
  moreover have "filter (supplied_filters test_runtime query_all) (feedback test_state) = []"
    by (simp add: supplied_filters_def query_all_def status_or_open_def)
  ultimately show ?thesis
    by simp
qed

end
